theory Spec2Isabelle
  imports Complex_Main "HOL-Library.Sublist" "HOL-Library.AList"
    "HOL-Library.Char_ord" "HOL-Library.List_Lexorder"
begin

section \<open>Python values used by the analysis code\<close>

text \<open>
  Texts are \<^typ>\<open>string\<close>s: lists of 8-bit characters, read as code points below 256.
  Python's integer counters are natural numbers (they only count up from 0), and the
  confidence \<open>score / max_score\<close> is the exact quotient in \<^typ>\<open>real\<close>. Python
  rounds the quotient to a double and compares it with the doubles nearest to 0.2 and 0.3;
  rounding is monotone, and a quotient of two counters below \<open>10^15\<close> that is smaller
  than \<open>1/5\<close> or \<open>3/10\<close> is too far from it to round to the same double, so the
  comparisons come out as the exact ones do.
\<close>

datatype py_error = ZeroDivisionError | KeyError

text \<open>\<open>a / b\<close> on two counters: true division, raising on a zero divisor.\<close>

definition true_div :: "nat \<Rightarrow> nat \<Rightarrow> py_error + real" where
  "true_div a b = (if b = 0 then Inl ZeroDivisionError else Inr (real a / real b))"

text \<open>\<open>sub in s\<close> on strings.\<close>

definition str_in :: "string \<Rightarrow> string \<Rightarrow> bool" where
  "str_in sub s = sublist sub s"

text \<open>
  \<open>s.count(sub)\<close>: the occurrences of \<open>sub\<close> found scanning from the left, each one
  starting after the end of the one before it. \<open>skip\<close> is the number of characters
  still covered by the last occurrence.
\<close>

fun count_from :: "string \<Rightarrow> nat \<Rightarrow> string \<Rightarrow> nat" where
  "count_from sub skip [] = 0"
| "count_from sub skip (c # cs) =
     (if skip > 0 then count_from sub (skip - 1) cs
      else if prefix sub (c # cs) then 1 + count_from sub (length sub - 1) cs
      else count_from sub 0 cs)"

definition str_count :: "string \<Rightarrow> string \<Rightarrow> nat" where
  "str_count s sub = (if sub = [] then length s + 1 else count_from sub 0 s)"

text \<open>\<open>s.strip(chars)\<close>, \<open>sep.join(parts)\<close> and \<open>str(n)\<close> for a counter.\<close>

definition strip_chars :: "string \<Rightarrow> string \<Rightarrow> string" where
  "strip_chars s chars =
     rev (dropWhile (\<lambda>c. c \<in> set chars) (rev (dropWhile (\<lambda>c. c \<in> set chars) s)))"

fun join :: "string \<Rightarrow> string list \<Rightarrow> string" where
  "join sep [] = []"
| "join sep [p] = p"
| "join sep (p # q # ps) = p @ sep @ join sep (q # ps)"

fun str_of_nat :: "nat \<Rightarrow> string" where
  "str_of_nat n =
     (if n < 10 then [char_of (48 + n)]
      else str_of_nat (n div 10) @ [char_of (48 + n mod 10)])"

declare str_of_nat.simps [simp del]

section \<open>The project on disk\<close>

text \<open>
  What the analyses read from the file system. \<open>root_parts\<close> are the components of
  \<open>project_path\<close>. \<open>rs_files\<close> is what \<open>src_path.rglob("*.rs")\<close> yields, in its order
  (\<open>src_path\<close> is \<open>project_path / "src"\<close> when that exists and \<open>project_path\<close> otherwise):
  for each file its path components relative to \<open>project_path\<close> and the result of the
  \<open>read_text\<close> call made on it, \<open>None\<close> when that call raises. \<open>cargo_toml\<close> is the text
  of \<open>Cargo.toml\<close>, \<open>None\<close> when it does not exist or cannot be read. \<open>cargo_packages\<close>
  is the length of the \<open>packages\<close> list that \<open>cargo metadata\<close> prints, \<open>None\<close> when the
  command fails, times out or prints no JSON. \<open>existing\<close> lists the paths relative to
  \<open>project_path\<close> that exist.
\<close>

record source_file =
  rel_parts :: "string list"
  file_text :: "string option"

record project =
  root_parts :: "string list"
  rs_files :: "source_file list"
  cargo_toml :: "string option"
  cargo_packages :: "nat option"
  existing :: "string list"

definition rel_path :: "source_file \<Rightarrow> string" where
  "rel_path f = join ''/'' (rel_parts f)"

definition project_name :: "project \<Rightarrow> string" where
  "project_name p = (if root_parts p = [] then [] else last (root_parts p))"

definition EXCLUDE_PATH_PATTERNS :: "string list" where
  "EXCLUDE_PATH_PATTERNS =
     [''/tests/'', ''/test/'', ''/benches/'', ''/bench/'', ''/examples/'', ''/example/'',
      ''_test.rs'', ''_tests.rs'', ''_bench.rs'', ''/fuzz/'', ''/stress/'']"

definition is_test_file :: "source_file \<Rightarrow> bool" where
  "is_test_file f =
     list_ex (\<lambda>pattern. str_in pattern (rel_path f)
                \<or> suffix (strip_chars pattern ''/'') (rel_path f))
       EXCLUDE_PATH_PATTERNS"

definition iter_source_files :: "project \<Rightarrow> bool \<Rightarrow> source_file list" where
  "iter_source_files p include_tests =
     filter (\<lambda>f. include_tests \<or> \<not> is_test_file f) (rs_files p)"

text \<open>
  The loop \<open>all_code += rs_file.read_text() + "\n"\<close> over the production files, a file
  whose read raises being skipped, and the guarded read of \<open>Cargo.toml\<close>.
\<close>

fun collect_code :: "source_file list \<Rightarrow> string" where
  "collect_code [] = []"
| "collect_code (f # fs) =
     (case file_text f of None \<Rightarrow> collect_code fs
      | Some t \<Rightarrow> t @ ''\<newline>'' @ collect_code fs)"

definition all_code_of :: "project \<Rightarrow> string" where
  "all_code_of p = collect_code (iter_source_files p False)"

definition cargo_content_of :: "project \<Rightarrow> string" where
  "cargo_content_of p = (case cargo_toml p of None \<Rightarrow> [] | Some t \<Rightarrow> t)"

section \<open>Pattern detection (analysis/patterns.py)\<close>

text \<open>
  A signature is the dictionary of one entry of \<open>PATTERN_SIGNATURES\<close>: evidence category
  name to list of strings, written as the association list of the dictionary literal.
  \<open>sig_get\<close> is \<open>signatures.get(key, [])\<close>.
\<close>

type_synonym signature = "(string \<times> string list) list"

definition sig_get :: "signature \<Rightarrow> string \<Rightarrow> string list" where
  "sig_get sg key = (case map_of sg key of None \<Rightarrow> [] | Some v \<Rightarrow> v)"

text \<open>The backslash, which a string literal cannot hold.\<close>

definition bs :: string where
  "bs = [CHR 0x5C]"

definition PATTERN_SIGNATURES :: "(string \<times> signature) list" where
  "PATTERN_SIGNATURES =
   [(''Tower Service'',
       [(''keywords'', [''ServiceBuilder'', ''tower::'']),
        (''imports'', [''tower'', ''tower_http'', ''tower_service'']),
        (''traits'', [''Service<Request>'', ''tower::Service''])]),
    (''Actor Model'',
       [(''keywords'', [''Addr<'', ''Handler<'', ''Recipient<'']),
        (''imports'', [''actix'', ''actix_web'', ''xactor'', ''ractor'']),
        (''traits'', [])]),
    (''ECS (Entity-Component-System)'',
       [(''keywords'', [''Query<'', ''Commands'', ''Res<'', ''ResMut<'']),
        (''imports'', [''bevy_ecs'', ''specs'', ''legion'', ''hecs'']),
        (''traits'', [])]),
    (''Type-State'',
       [(''patterns'',
          [''struct'' @ bs @ ''s+'' @ bs @ ''w+<'' @ bs @ ''w+>'',
           ''impl'' @ bs @ ''s+'' @ bs @ ''w+<'' @ bs @ ''w+>'',
           ''fn'' @ bs @ ''s+'' @ bs @ ''w+'' @ bs @ ''(self'' @ bs @ '')'' @ bs @ ''s*->'' @ bs @ ''s*'' @ bs @ ''w+<'' @ bs @ ''w+>''])]),
    (''Builder'',
       [(''keywords'', [''Builder'', ''build()'', ''with_'', ''set_'']),
        (''patterns'',
          [''fn'' @ bs @ ''s+builder'' @ bs @ ''s*'' @ bs @ ''('',
           ''fn'' @ bs @ ''s+build'' @ bs @ ''s*'' @ bs @ ''(self'' @ bs @ '')'',
           ''fn'' @ bs @ ''s+with_'' @ bs @ ''w+'' @ bs @ ''s*'' @ bs @ ''(self''])]),
    (''Error Handling (thiserror)'',
       [(''imports'', [''thiserror'']),
        (''patterns'', [''#'' @ bs @ ''[derive'' @ bs @ ''([^)]*Error[^)]*'' @ bs @ '')'' @ bs @ '']''])]),
    (''Error Handling (anyhow)'',
       [(''imports'', [''anyhow'']),
        (''keywords'', [''.context('', ''anyhow!'', ''bail!''])]),
    (''Async/Await Runtime'',
       [(''imports'', [''tokio'', ''async_std'', ''smol'']),
        (''keywords'', [''#[tokio::main]'', ''#[async_std::main]'', ''async fn'', ''.await''])]),
    (''CRDT'',
       [(''keywords'', [''CRDT'', ''Replica'', ''Merge'', ''conflictfree'']),
        (''imports'', [''crdt'', ''yrs'', ''automerge''])])]"

text \<open>The three local variables of one iteration of the loop over the signatures.\<close>

record score_state =
  evidence_acc :: "string list"
  score :: nat
  max_score :: nat

definition init_state :: score_state where
  "init_state = \<lparr>evidence_acc = [], score = 0, max_score = 0\<rparr>"

text \<open>
  One inner loop \<open>for x in items: if hit(x): evidence.append(label(x)); score += w\<close>.
\<close>

fun tally :: "(string \<Rightarrow> bool) \<Rightarrow> (string \<Rightarrow> string) \<Rightarrow> nat \<Rightarrow> string list
    \<Rightarrow> score_state \<Rightarrow> score_state" where
  "tally hit label w [] st = st"
| "tally hit label w (x # xs) st =
     tally hit label w xs
       (if hit x
        then st\<lparr>evidence_acc := evidence_acc st @ [label x], score := score st + w\<rparr>
        else st)"

text \<open>
  The four blocks of the loop body. Each one runs only when its list is non-empty
  (\<open>if keywords:\<close>), adds the list's weight to \<open>max_score\<close> and then scans the list.
  \<open>re_search pat s\<close> stands for \<open>re.search(pat, s)\<close> of Python's standard library being
  a match; it is a parameter.
\<close>

definition check_keywords :: "signature \<Rightarrow> string \<Rightarrow> score_state \<Rightarrow> score_state" where
  "check_keywords sg all_code st =
     (let keywords = sig_get sg ''keywords'' in
      if keywords \<noteq> []
      then tally (\<lambda>kw. str_in kw all_code) (\<lambda>kw. ''keyword: '' @ kw) 1 keywords
             (st\<lparr>max_score := max_score st + length keywords\<rparr>)
      else st)"

definition check_imports :: "signature \<Rightarrow> string \<Rightarrow> string \<Rightarrow> score_state \<Rightarrow> score_state" where
  "check_imports sg all_code cargo_content st =
     (let imports = sig_get sg ''imports'' in
      if imports \<noteq> []
      then tally (\<lambda>imp. str_in imp cargo_content \<or> str_in (''use '' @ imp) all_code)
             (\<lambda>imp. ''import: '' @ imp) 2 imports
             (st\<lparr>max_score := max_score st + length imports * 2\<rparr>)
      else st)"

definition check_patterns ::
    "(string \<Rightarrow> string \<Rightarrow> bool) \<Rightarrow> signature \<Rightarrow> string \<Rightarrow> score_state \<Rightarrow> score_state" where
  "check_patterns re_search sg all_code st =
     (let patterns = sig_get sg ''patterns'' in
      if patterns \<noteq> []
      then tally (\<lambda>pat. re_search pat all_code)
             (\<lambda>pat. ''pattern: '' @ take 30 pat @ ''...'') 1 patterns
             (st\<lparr>max_score := max_score st + length patterns\<rparr>)
      else st)"

definition check_traits :: "signature \<Rightarrow> string \<Rightarrow> score_state \<Rightarrow> score_state" where
  "check_traits sg all_code st =
     (let traits = sig_get sg ''traits'' in
      if traits \<noteq> []
      then tally (\<lambda>trait. str_in trait all_code) (\<lambda>trait. ''trait: '' @ trait) 1 traits
             (st\<lparr>max_score := max_score st + length traits\<rparr>)
      else st)"

definition score_signature ::
    "(string \<Rightarrow> string \<Rightarrow> bool) \<Rightarrow> signature \<Rightarrow> string \<Rightarrow> string \<Rightarrow> score_state" where
  "score_signature re_search sg all_code cargo_content =
     check_traits sg all_code
       (check_patterns re_search sg all_code
          (check_imports sg all_code cargo_content
             (check_keywords sg all_code init_state)))"

record detection =
  confidence :: real
  evidence :: "string list"

record pattern_detection = detection +
  name :: string

text \<open>
  The end of the loop body: \<open>None\<close> when nothing is appended to \<open>detected\<close>, an error
  when the division raises.
\<close>

definition detect_pattern ::
    "(string \<Rightarrow> string \<Rightarrow> bool) \<Rightarrow> string \<Rightarrow> string \<Rightarrow> string \<times> signature
      \<Rightarrow> py_error + pattern_detection option" where
  "detect_pattern re_search all_code cargo_content entry =
     (let pattern_name = fst entry;
          st = score_signature re_search (snd entry) all_code cargo_content in
      if max_score st > 0 \<and> score st > 0
      then (case true_div (score st) (max_score st) of
              Inl e \<Rightarrow> Inl e
            | Inr q \<Rightarrow>
                (let c = min q 1 in
                 if c \<ge> 2 / 10
                 then Inr (Some \<lparr>confidence = c, evidence = evidence_acc st,
                                 name = pattern_name\<rparr>)
                 else Inr None))
      else Inr None)"

fun detect_patterns ::
    "(string \<Rightarrow> string \<Rightarrow> bool) \<Rightarrow> string \<Rightarrow> string \<Rightarrow> (string \<times> signature) list
      \<Rightarrow> pattern_detection list \<Rightarrow> py_error + pattern_detection list" where
  "detect_patterns re_search all_code cargo_content [] detected = Inr detected"
| "detect_patterns re_search all_code cargo_content (entry # entries) detected =
     (case detect_pattern re_search all_code cargo_content entry of
        Inl e \<Rightarrow> Inl e
      | Inr None \<Rightarrow> detect_patterns re_search all_code cargo_content entries detected
      | Inr (Some d) \<Rightarrow>
          detect_patterns re_search all_code cargo_content entries (detected @ [d]))"

text \<open>
  \<open>detected.sort(key=lambda x: x["confidence"], reverse=True)\<close>: a stable sort by
  descending confidence.
\<close>

definition sort_by_confidence :: "('a detection_scheme) list \<Rightarrow> ('a detection_scheme) list" where
  "sort_by_confidence ds = sort_key (\<lambda>d. - confidence d) ds"

text \<open>\<open>analyze\<close>, with the signature table made a parameter.\<close>

definition analyze_with ::
    "(string \<times> signature) list \<Rightarrow> (string \<Rightarrow> string \<Rightarrow> bool) \<Rightarrow> project
      \<Rightarrow> py_error + pattern_detection list" where
  "analyze_with sigs re_search p =
     (case detect_patterns re_search (all_code_of p) (cargo_content_of p) sigs [] of
        Inl e \<Rightarrow> Inl e
      | Inr detected \<Rightarrow> Inr (sort_by_confidence detected))"

definition analyze :: "(string \<Rightarrow> string \<Rightarrow> bool) \<Rightarrow> project \<Rightarrow> py_error + pattern_detection list" where
  "analyze = analyze_with PATTERN_SIGNATURES"

section \<open>Architecture style detection (analysis/architecture.py)\<close>

record style_info =
  indicators :: "string list"
  description :: string

definition ARCHITECTURE_STYLES :: "(string \<times> style_info) list" where
  "ARCHITECTURE_STYLES =
   [(''Modular Monolith'',
       \<lparr>indicators = [''single_crate'', ''many_modules''],
        description = ''Single crate with well-organized internal modules by domain''\<rparr>),
    (''Multi-Crate Workspace'',
       \<lparr>indicators = [''workspace'', ''multiple_crates''],
        description = ''Multiple crates in a workspace, each with specific responsibility''\<rparr>),
    (''Plugin Architecture'',
       \<lparr>indicators = [''plugin'', ''Plugin'', ''add_plugin'', ''PluginGroup''],
        description = ''Core system with extensible plugin-based functionality''\<rparr>),
    (''Hexagonal/Ports-Adapters'',
       \<lparr>indicators = [''port'', ''adapter'', ''domain'', ''infrastructure'', ''Storage'',
                       ''Backend''],
        description = ''Domain logic separated from infrastructure through traits (pluggable storage)''\<rparr>),
    (''Event-Driven'',
       \<lparr>indicators = [''Event'', ''EventReader'', ''EventWriter'', ''on_event'', ''emit''],
        description = ''Components communicate through events and messages''\<rparr>),
    (''Actor Model'',
       \<lparr>indicators = [''actix'', ''xactor'', ''ractor'', ''Addr<'', ''Handler<''],
        description = ''Concurrent computation using actors with message mailboxes''\<rparr>),
    (''Reactor/Proactor'',
       \<lparr>indicators = [''Future'', ''Poll::'', ''Waker'', ''async fn'', ''.await'', ''executor''],
        description = ''Async I/O with event loop (Tokio, async-std style)''\<rparr>),
    (''Work-Stealing Scheduler'',
       \<lparr>indicators = [''work_steal'', ''multi_thread'', ''Runtime::new'', ''tokio::runtime''],
        description = ''Load-balanced task scheduling across worker threads''\<rparr>),
    (''ECS (Entity-Component-System)'',
       \<lparr>indicators = [''bevy_ecs'', ''specs'', ''legion'', ''hecs'', ''World'', ''Query<''],
        description = ''Data-oriented design with entities, components, and systems''\<rparr>)]"

text \<open>
  The dictionary \<open>analyze_workspace\<close> returns, as far as the style detector reads it:
  \<open>package_count\<close> is absent on the error path.
\<close>

record workspace_info =
  is_workspace :: bool
  package_count :: "nat option"

definition analyze_workspace :: "project \<Rightarrow> workspace_info" where
  "analyze_workspace p =
     (case cargo_packages p of
        None \<Rightarrow> \<lparr>is_workspace = False, package_count = None\<rparr>
      | Some n \<Rightarrow> \<lparr>is_workspace = (n > 1), package_count = Some n\<rparr>)"

record style_detection = detection +
  style :: string
  description_of :: string

text \<open>\<open>styles[style_name]["description"]\<close>, raising on a missing key.\<close>

definition style_description :: "(string \<times> style_info) list \<Rightarrow> string \<Rightarrow> py_error + string" where
  "style_description styles style_name =
     (case map_of styles style_name of
        None \<Rightarrow> Inl KeyError
      | Some info \<Rightarrow> Inr (description info))"

text \<open>
  The two workspace-shape checks (\<open>if ... elif ...\<close>): the detections they append to the
  still empty list \<open>detected\<close>.
\<close>

definition check_workspace ::
    "(string \<times> style_info) list \<Rightarrow> workspace_info \<Rightarrow> string
      \<Rightarrow> py_error + style_detection list" where
  "check_workspace styles workspace_info all_code =
     (if is_workspace workspace_info
         \<and> (case package_count workspace_info of None \<Rightarrow> 0 | Some n \<Rightarrow> n) > 3
      then (case package_count workspace_info of
              None \<Rightarrow> Inl KeyError
            | Some n \<Rightarrow>
                (case style_description styles ''Multi-Crate Workspace'' of
                   Inl e \<Rightarrow> Inl e
                 | Inr d \<Rightarrow>
                     Inr [\<lparr>confidence = 9 / 10,
                           evidence = [''Workspace with '' @ str_of_nat n @ '' packages''],
                           style = ''Multi-Crate Workspace'', description_of = d\<rparr>]))
      else if \<not> is_workspace workspace_info
      then (let module_count = str_count all_code ''mod '' + str_count all_code ''pub mod '' in
            if module_count > 10
            then (case style_description styles ''Modular Monolith'' of
                    Inl e \<Rightarrow> Inl e
                  | Inr d \<Rightarrow>
                      Inr [\<lparr>confidence = 7 / 10,
                            evidence = [''Single crate with '' @ str_of_nat module_count
                                          @ ''+ module declarations''],
                            style = ''Modular Monolith'', description_of = d\<rparr>])
            else Inr [])
      else Inr [])"

text \<open>One iteration of the loop over the remaining styles.\<close>

definition detect_style ::
    "string \<Rightarrow> string \<times> style_info \<Rightarrow> py_error + style_detection option" where
  "detect_style combined_content entry =
     (let style_name = fst entry; style_info = snd entry in
      if style_name \<in> set [''Modular Monolith'', ''Multi-Crate Workspace''] then Inr None
      else
        (let found_indicators = filter (\<lambda>indicator. str_in indicator combined_content)
                                  (indicators style_info) in
         if found_indicators \<noteq> []
         then (case true_div (length found_indicators) (length (indicators style_info)) of
                 Inl e \<Rightarrow> Inl e
               | Inr c \<Rightarrow>
                   if c \<ge> 3 / 10
                   then Inr (Some \<lparr>confidence = c, evidence = found_indicators,
                                   style = style_name,
                                   description_of = description style_info\<rparr>)
                   else Inr None)
         else Inr None))"

fun detect_styles ::
    "string \<Rightarrow> (string \<times> style_info) list \<Rightarrow> style_detection list
      \<Rightarrow> py_error + style_detection list" where
  "detect_styles combined_content [] detected = Inr detected"
| "detect_styles combined_content (entry # entries) detected =
     (case detect_style combined_content entry of
        Inl e \<Rightarrow> Inl e
      | Inr None \<Rightarrow> detect_styles combined_content entries detected
      | Inr (Some d) \<Rightarrow> detect_styles combined_content entries (detected @ [d]))"

text \<open>\<open>detect_architecture_style\<close>, with the style table made a parameter.\<close>

definition detect_architecture_style_with ::
    "(string \<times> style_info) list \<Rightarrow> project \<Rightarrow> py_error + style_detection list" where
  "detect_architecture_style_with styles p =
     (let workspace_info = analyze_workspace p;
          all_code = all_code_of p;
          combined_content = all_code @ cargo_content_of p in
      case check_workspace styles workspace_info all_code of
        Inl e \<Rightarrow> Inl e
      | Inr detected0 \<Rightarrow>
          (case detect_styles combined_content styles detected0 of
             Inl e \<Rightarrow> Inl e
           | Inr detected \<Rightarrow> Inr (sort_by_confidence detected)))"

definition detect_architecture_style :: "project \<Rightarrow> py_error + style_detection list" where
  "detect_architecture_style = detect_architecture_style_with ARCHITECTURE_STYLES"

section \<open>The knowledge graph's data (analysis/knowledge_graph.py)\<close>

text \<open>
  A node is the dictionary \<open>_extract_entities\<close> builds, with its five keys \<open>id\<close>, \<open>name\<close>,
  \<open>type\<close>, \<open>module\<close> and \<open>visibility\<close>; an edge the one \<open>_extract_relationships\<close> builds,
  with \<open>from\<close>, \<open>to\<close>, \<open>relationship\<close> and \<open>source\<close>.
\<close>

record entity =
  e_id :: string
  e_name :: string
  e_type :: string
  e_module :: string
  e_visibility :: string

record edge =
  edge_from :: string
  edge_to :: string
  relationship :: string
  source :: string

record cluster =
  cluster_name :: string
  cluster_nodes :: "string list"

record graph_stats =
  total_nodes :: nat
  total_edges :: nat
  total_clusters :: nat

record graph =
  g_project :: string
  nodes :: "entity list"
  edges :: "edge list"
  clusters :: "cluster list"
  stats :: graph_stats

text \<open>
  \<open>s.split(sep)\<close> for a non-empty separator: \<open>cur\<close> is the field being read and \<open>skip\<close>
  the number of characters of the separator still to pass.
\<close>

fun split_from :: "string \<Rightarrow> nat \<Rightarrow> string \<Rightarrow> string \<Rightarrow> string list" where
  "split_from sep skip cur [] = [cur]"
| "split_from sep skip cur (c # cs) =
     (if skip > 0 then split_from sep (skip - 1) cur cs
      else if prefix sep (c # cs) then cur # split_from sep (length sep - 1) [] cs
      else split_from sep 0 (cur @ [c]) cs)"

definition str_split :: "string \<Rightarrow> string \<Rightarrow> string list" where
  "str_split s sep = split_from sep 0 [] s"

text \<open>
  A dictionary whose values are lists, in insertion order:
  \<open>if k not in d: d[k] = []\<close> followed by \<open>d[k].append(v)\<close>.
\<close>

definition dict_append :: "(string \<times> 'a list) list \<Rightarrow> string \<Rightarrow> 'a \<Rightarrow> (string \<times> 'a list) list" where
  "dict_append d k v =
     (case map_of d k of
        None \<Rightarrow> d @ [(k, [v])]
      | Some vs \<Rightarrow> AList.update k (vs @ [v]) d)"

text \<open>The \<open>if\<close>/\<open>elif\<close> chain of \<open>_identify_clusters\<close> that names the layer of a module path.\<close>

definition layer_of :: "string \<Rightarrow> string" where
  "layer_of mpath =
     (if str_in ''domain'' mpath \<or> str_in ''entity'' mpath \<or> str_in ''model'' mpath
      then ''Domain Layer''
      else if str_in ''service'' mpath \<or> str_in ''application'' mpath
              \<or> str_in ''handler'' mpath
      then ''Application Layer''
      else if str_in ''repo'' mpath \<or> str_in ''db'' mpath \<or> str_in ''storage'' mpath
      then ''Infrastructure Layer''
      else if str_in ''api'' mpath \<or> str_in ''http'' mpath \<or> str_in ''web'' mpath
      then ''Interface Layer''
      else if str_in ''util'' mpath \<or> str_in ''common'' mpath \<or> str_in ''helper'' mpath
      then ''Utilities''
      else (let parts = str_split mpath ''/'' in
            if length parts > 1
            then ''Module: '' @ (if suffix ''.rs'' (last parts)
                                 then parts ! (length parts - 2) else last parts)
            else ''Core''))"

fun group_nodes :: "entity list \<Rightarrow> (string \<times> string list) list \<Rightarrow> (string \<times> string list) list" where
  "group_nodes [] groups = groups"
| "group_nodes (node # rest) groups =
     group_nodes rest (dict_append groups (layer_of (e_module node)) (e_id node))"

text \<open>
  \<open>sorted(clusters.items())\<close> orders the pairs by name, the names being distinct keys;
  \<open>sorted(set(node_ids))\<close> is the sorted list of the distinct ids. Strings are compared
  character by character, a proper prefix first.
\<close>

definition identify_clusters :: "entity list \<Rightarrow> edge list \<Rightarrow> cluster list" where
  "identify_clusters ns es =
     map (\<lambda>(name, node_ids). \<lparr>cluster_name = name, cluster_nodes = sort (remdups node_ids)\<rparr>)
       (sort_key fst (group_nodes ns []))"

section \<open>The semantic index (export/semantic_index.py)\<close>

record entry_point =
  ep_file :: string
  ep_type :: string
  ep_description :: string

record public_api =
  api_name :: string
  api_type :: string
  api_module :: string

record index_stats =
  total_files :: nat
  total_concepts :: nat
  total_public_apis :: nat

record semantic_index =
  si_project :: string
  file_to_concepts :: "(string \<times> string list) list"
  concept_to_files :: "(string \<times> string list) list"
  hot_spots :: "(string \<times> nat) list"
  entry_points :: "entry_point list"
  public_apis :: "public_api list"
  si_stats :: index_stats

text \<open>The first loop: both dictionaries, updated node by node.\<close>

fun index_nodes :: "entity list \<Rightarrow> (string \<times> string list) list \<times> (string \<times> string list) list
    \<Rightarrow> (string \<times> string list) list \<times> (string \<times> string list) list" where
  "index_nodes [] acc = acc"
| "index_nodes (node # rest) (f2c, c2f) =
     (let mpath = e_module node; name = e_id node;
          f2c' = dict_append f2c mpath name;
          c2f' = (case map_of c2f name of None \<Rightarrow> c2f @ [(name, [])] | Some _ \<Rightarrow> c2f);
          c2f'' = (case map_of c2f' name of
                     None \<Rightarrow> c2f'
                   | Some ms \<Rightarrow> if mpath \<in> set ms then c2f'
                                else AList.update name (ms @ [mpath]) c2f')
      in index_nodes rest (f2c', c2f''))"

text \<open>\<open>d[k] = d.get(k, 0) + 1\<close>, and the loop over the edges that counts both endpoints.\<close>

definition bump :: "(string \<times> nat) list \<Rightarrow> string \<Rightarrow> (string \<times> nat) list" where
  "bump d k = AList.update k ((case map_of d k of None \<Rightarrow> 0 | Some n \<Rightarrow> n) + 1) d"

fun count_degrees :: "edge list \<Rightarrow> (string \<times> nat) list \<Rightarrow> (string \<times> nat) list" where
  "count_degrees [] node_degree = node_degree"
| "count_degrees (e # es) node_degree =
     count_degrees es (bump (bump node_degree (edge_from e)) (edge_to e))"

definition main_files :: "(string \<times> string) list" where
  "main_files =
     [(''src/main.rs'', ''Binary entry point''),
      (''src/lib.rs'', ''Library entry point''),
      (''lib.rs'', ''Library entry point''),
      (''main.rs'', ''Binary entry point'')]"

definition detect_entry_points :: "project \<Rightarrow> graph \<Rightarrow> entry_point list" where
  "detect_entry_points p g =
     map (\<lambda>(file_name, description).
            \<lparr>ep_file = file_name,
             ep_type = (if str_in ''main'' file_name then ''main'' else ''lib''),
             ep_description = description\<rparr>)
       (filter (\<lambda>(file_name, description). file_name \<in> set (existing p)) main_files)
     @ (case find (\<lambda>node. e_name node = ''main'' \<and> e_type node = ''fn'') (nodes g) of
          None \<Rightarrow> []
        | Some node \<Rightarrow>
            [\<lparr>ep_file = e_module node, ep_type = ''main_function'',
              ep_description = ''main() function''\<rparr>])"

definition is_public_api :: "entity \<Rightarrow> bool" where
  "is_public_api node \<longleftrightarrow>
     e_visibility node = ''pub'' \<and> e_type node \<in> set [''fn'', ''struct'', ''trait'']"

definition build_semantic_index :: "project \<Rightarrow> graph \<Rightarrow> semantic_index" where
  "build_semantic_index p g =
     (let (f2c, c2f) = index_nodes (nodes g) ([], []);
          node_degree = count_degrees (edges g) [];
          hot = take 20 (sort_key (\<lambda>x. - int (snd x)) node_degree);
          apis = filter is_public_api (nodes g)
      in \<lparr>si_project = g_project g,
          file_to_concepts = f2c,
          concept_to_files = c2f,
          hot_spots = hot,
          entry_points = detect_entry_points p g,
          public_apis = map (\<lambda>api. \<lparr>api_name = e_name api, api_type = e_type api,
                                      api_module = e_module api\<rparr>) (take 50 apis),
          si_stats = \<lparr>total_files = length f2c, total_concepts = length c2f,
                      total_public_apis = length apis\<rparr>\<rparr>)"

section \<open>The layer rule in the words of the specification\<close>



section \<open>Regular expressions (Python's \<open>re\<close>)\<close>

text \<open>
  The regular expressions of the extractors, as syntax trees, and a backtracking matcher
  with the semantics of Python's \<open>re\<close> for them. \<open>Cls P\<close> is one character of a class,
  \<open>Star\<close> the greedy \<open>*\<close>, \<open>Lazy\<close> the non-greedy \<open>*?\<close>, \<open>Opt\<close> the greedy \<open>?\<close> and
  \<open>Group k\<close> the \<open>k\<close>-th capturing group; \<open>(?:...)\<close> needs no constructor. None of the
  expressions below looks behind the position it starts at (no \<open>^\<close>, \<open>\b\<close> or
  look-behind), so a match at a position depends on the text from there on only.
\<close>

datatype regex =
    Lit string
  | Cls "char \<Rightarrow> bool"
  | Seq regex regex
  | Alt regex regex
  | Opt regex
  | Star regex
  | Lazy regex
  | Group nat regex

text \<open>
  All the ways \<open>r\<close> matches a prefix of the text, in the order the backtracking matcher
  tries them: a state is the text still to read and the groups captured so far, the last
  capture of a group first. A repetition continues only after an iteration that consumed
  something.
\<close>

fun rx_match :: "regex \<Rightarrow> string \<times> (nat \<times> string) list \<Rightarrow> (string \<times> (nat \<times> string) list) list" where
  "rx_match (Lit l) st = (if prefix l (fst st) then [(drop (length l) (fst st), snd st)] else [])"
| "rx_match (Cls P) st =
     (case fst st of [] \<Rightarrow> [] | c # cs \<Rightarrow> if P c then [(cs, snd st)] else [])"
| "rx_match (Seq a b) st = concat (map (rx_match b) (rx_match a st))"
| "rx_match (Alt a b) st = rx_match a st @ rx_match b st"
| "rx_match (Opt a) st = rx_match a st @ [st]"
| "rx_match (Star a) st =
     concat (map (\<lambda>st'. if length (fst st') < length (fst st) then rx_match (Star a) st' else [])
               (rx_match a st)) @ [st]"
| "rx_match (Lazy a) st =
     st # concat (map (\<lambda>st'. if length (fst st') < length (fst st) then rx_match (Lazy a) st' else [])
               (rx_match a st))"
| "rx_match (Group k a) st =
     map (\<lambda>st'. (fst st', (k, take (length (fst st) - length (fst st')) (fst st)) # snd st'))
       (rx_match a st)"

text \<open>A sequence of expressions, and the greedy \<open>+\<close>.\<close>

definition seqs :: "regex list \<Rightarrow> regex" where
  "seqs rs = foldr Seq rs (Lit [])"

definition plus :: "regex \<Rightarrow> regex" where
  "plus a = Seq a (Star a)"

text \<open>
  \<open>\w\<close> and \<open>\s\<close> on \<open>str\<close> patterns, for code points below 256: the alphanumeric
  characters and the underscore; the white space characters (the ones \<open>str.strip()\<close>
  removes).
\<close>

definition is_word :: "char \<Rightarrow> bool" where
  "is_word c =
     (let n = (of_char c :: nat) in
      (48 \<le> n \<and> n \<le> 57) \<or> (65 \<le> n \<and> n \<le> 90) \<or> n = 95 \<or> (97 \<le> n \<and> n \<le> 122)
      \<or> n = 170 \<or> n = 178 \<or> n = 179 \<or> n = 181 \<or> n = 185 \<or> n = 186
      \<or> (188 \<le> n \<and> n \<le> 190) \<or> (192 \<le> n \<and> n \<le> 214) \<or> (216 \<le> n \<and> n \<le> 246)
      \<or> 248 \<le> n)"

definition is_space :: "char \<Rightarrow> bool" where
  "is_space c =
     (let n = (of_char c :: nat) in
      (9 \<le> n \<and> n \<le> 13) \<or> (28 \<le> n \<and> n \<le> 32) \<or> n = 133 \<or> n = 160)"

definition word :: regex where "word = Cls is_word"
definition space :: regex where "space = Cls is_space"
definition not_char :: "char \<Rightarrow> regex" where "not_char x = Cls (\<lambda>c. c \<noteq> x)"

text \<open>
  A match object: \<open>m.start()\<close>, \<open>m.end()\<close> and the captured groups. \<open>match_at\<close> is the first
  match that starts at the given position, if any.
\<close>

record rmatch =
  m_start :: nat
  m_end :: nat
  m_groups :: "(nat \<times> string) list"

definition match_at :: "regex \<Rightarrow> nat \<Rightarrow> string \<Rightarrow> rmatch option" where
  "match_at r pos s =
     (case rx_match r (s, []) of
        [] \<Rightarrow> None
      | st # _ \<Rightarrow> Some \<lparr>m_start = pos, m_end = pos + (length s - length (fst st)),
                         m_groups = snd st\<rparr>)"

text \<open>
  \<open>re.finditer(r, s)\<close>: the leftmost match, then the leftmost match that starts at or
  after its end, and so on. \<open>skip\<close> counts the characters left of the last match's end.
\<close>

fun scan :: "regex \<Rightarrow> nat \<Rightarrow> nat \<Rightarrow> string \<Rightarrow> rmatch list" where
  "scan r pos skip [] =
     (if skip > 0 then [] else case match_at r pos [] of None \<Rightarrow> [] | Some m \<Rightarrow> [m])"
| "scan r pos skip (c # cs) =
     (if skip > 0 then scan r (pos + 1) (skip - 1) cs
      else case match_at r pos (c # cs) of
             None \<Rightarrow> scan r (pos + 1) 0 cs
           | Some m \<Rightarrow> m # scan r (pos + 1) (m_end m - m_start m - 1) cs)"

definition re_finditer :: "regex \<Rightarrow> string \<Rightarrow> rmatch list" where
  "re_finditer r s = scan r 0 0 s"

text \<open>\<open>re.match(r, s)\<close> being a match, and \<open>m.group(k)\<close> for a group that took part in the match.\<close>

definition re_match :: "regex \<Rightarrow> string \<Rightarrow> bool" where
  "re_match r s = (match_at r 0 s \<noteq> None)"

definition group :: "rmatch \<Rightarrow> nat \<Rightarrow> string" where
  "group m k = (case map_of (m_groups m) k of None \<Rightarrow> [] | Some g \<Rightarrow> g)"

text \<open>The slice \<open>s[a:b]\<close> for \<open>0 \<le> a\<close>.\<close>

definition slice :: "string \<Rightarrow> nat \<Rightarrow> nat \<Rightarrow> string" where
  "slice s a b = take (b - a) (drop a s)"

section \<open>Entity extraction (analysis/knowledge_graph.py)\<close>

text \<open>
  \<open>_extract_entities\<close>. The optional visibility \<open>(?:pub(?:\([^)]+\))?\s+)?\<close> and the five
  patterns of the dictionary \<open>patterns\<close>, in its order.
\<close>

definition pub_prefix :: regex where
  "pub_prefix =
     Opt (seqs [Lit ''pub'', Opt (seqs [Lit ''('', plus (not_char CHR '')''), Lit '')'']),
                plus space])"

definition entity_patterns :: "(string \<times> regex) list" where
  "entity_patterns =
     [(''struct'', seqs [pub_prefix, Lit ''struct'', plus space, Group 1 (plus word)]),
      (''enum'', seqs [pub_prefix, Lit ''enum'', plus space, Group 1 (plus word)]),
      (''trait'', seqs [pub_prefix, Lit ''trait'', plus space, Group 1 (plus word)]),
      (''impl'', seqs [Lit ''impl'',
                       Opt (seqs [Lit ''<'', plus (not_char CHR ''>''), Lit ''>'']),
                       plus space, Group 1 (plus word)]),
      (''fn'', seqs [pub_prefix, Opt (seqs [Lit ''async'', plus space]), Lit ''fn'',
                     plus space, Group 1 (plus word)])]"

text \<open>
  The body of the inner loop for one match: \<open>None\<close> when the name is skipped. The start
  of the slice is \<open>max(0, match.start() - 10)\<close>, which is the truncating difference.
\<close>

definition entity_of_match :: "string \<Rightarrow> string \<Rightarrow> string \<Rightarrow> rmatch \<Rightarrow> entity option" where
  "entity_of_match content file_path entity_type m =
     (let name = group m 1 in
      if name \<in> set [''self'', ''Self'', ''new'', ''default'', ''from'', ''into''] then None
      else
        (let visibility =
               (if str_in ''pub '' (slice content (m_start m - 10) (m_start m + 10))
                then ''pub'' else ''private'')
         in Some \<lparr>e_id = name, e_name = name, e_type = entity_type, e_module = file_path,
                   e_visibility = visibility\<rparr>))"

definition extract_entities :: "string \<Rightarrow> string \<Rightarrow> entity list" where
  "extract_entities content file_path =
     concat (map (\<lambda>(entity_type, pattern).
                    List.map_filter (entity_of_match content file_path entity_type)
                      (re_finditer pattern content))
               entity_patterns)"

section \<open>Relationship extraction and the graph (analysis/knowledge_graph.py)\<close>

text \<open>An alternation \<open>a|b|...\<close>.\<close>

fun alts :: "regex list \<Rightarrow> regex" where
  "alts [] = Lit []"
| "alts [r] = r"
| "alts (r # rs) = Alt r (alts rs)"

text \<open>\<open>s.strip()\<close>.\<close>

definition py_strip :: "string \<Rightarrow> string" where
  "py_strip s = rev (dropWhile is_space (rev (dropWhile is_space s)))"

text \<open>
  \<open>Path(file_path).name\<close> and \<open>Path(file_path).stem\<close> for a relative POSIX path: the last
  component, and that component without its last suffix (a dot that is neither its first
  nor its last character starts the suffix).
\<close>

definition path_name :: "string \<Rightarrow> string" where
  "path_name file_path =
     (let ps = filter (\<lambda>part. part \<noteq> [] \<and> part \<noteq> ''.'') (str_split file_path ''/'') in
      if ps = [] then [] else last ps)"

definition path_stem :: "string \<Rightarrow> string" where
  "path_stem file_path =
     (let name = path_name file_path;
          after_dot = takeWhile (\<lambda>c. c \<noteq> CHR ''.'') (rev name);
          i = length name - length after_dot - 1
      in if CHR ''.'' \<in> set name \<and> 0 < i \<and> after_dot \<noteq> [] then take i name else name)"

text \<open>
  \<open>_extract_relationships\<close>: its five patterns, with \<open>(?:<[^>]+>)?\<close> and the optional
  visibility \<open>(?:pub(?:\([^)]*\))?\s+)?\<close> they share.
\<close>

definition angle_args :: regex where
  "angle_args = Opt (seqs [Lit ''<'', plus (not_char CHR ''>''), Lit ''>''])"

definition pub_prefix0 :: regex where
  "pub_prefix0 =
     Opt (seqs [Lit ''pub'', Opt (seqs [Lit ''('', Star (not_char CHR '')''), Lit '')'']),
                plus space])"

definition impl_pattern :: regex where
  "impl_pattern =
     seqs [Lit ''impl'', angle_args, plus space, Group 1 (plus word), angle_args, plus space,
           Lit ''for'', plus space, Group 2 (plus word)]"

definition derive_pattern :: regex where
  "derive_pattern =
     seqs [Lit ''#[derive('', Group 1 (plus (not_char CHR '')'')), Lit '')]'', Star space,
           pub_prefix0, alts [Lit ''struct'', Lit ''enum''], plus space, Group 2 (plus word)]"

definition mod_pattern :: regex where
  "mod_pattern = seqs [pub_prefix0, Lit ''mod'', plus space, Group 1 (plus word)]"

definition is_ascii_letter :: "char \<Rightarrow> bool" where
  "is_ascii_letter c =
     (let n = (of_char c :: nat) in (65 \<le> n \<and> n \<le> 90) \<or> (97 \<le> n \<and> n \<le> 122))"

definition is_ascii_digit :: "char \<Rightarrow> bool" where
  "is_ascii_digit c = (let n = (of_char c :: nat) in 48 \<le> n \<and> n \<le> 57)"

definition use_pattern :: regex where
  "use_pattern =
     seqs [Lit ''use'', plus space, Opt (Lit ''crate::''),
           Group 1 (Seq (Cls (\<lambda>c. is_ascii_letter c \<or> c = CHR ''_''))
                        (Star (Cls (\<lambda>c. is_ascii_letter c \<or> is_ascii_digit c
                                          \<or> c = CHR ''_'' \<or> c = CHR '':''))))]"

definition field_pattern :: regex where
  "field_pattern =
     seqs [Group 1 (plus word), Star space, Lit '':'', Star space, Opt (Lit ''&''),
           Opt (seqs [Lit ''mut'', plus space]),
           Opt (alts [Lit ''Option<'', Lit ''Vec<'', Lit ''Box<'', Lit ''Arc<'', Lit ''Rc<'']),
           Group 2 (plus word)]"

definition primitives :: "string list" where
  "primitives =
     [''str'', ''String'', ''usize'', ''isize'', ''i8'', ''i16'', ''i32'', ''i64'',
      ''u8'', ''u16'', ''u32'', ''u64'', ''f32'', ''f64'', ''bool'', ''char'', ''Self'']"

text \<open>
  The five scans, in order; \<open>entity_map\<close> is the dictionary of the entities seen so far,
  of which only the keys are read. The parent of a module is \<open>module_stack[-1]\<close>, which is
  always the file's stem.
\<close>

definition extract_relationships :: "string \<Rightarrow> string \<Rightarrow> (string \<rightharpoonup> entity) \<Rightarrow> edge list" where
  "extract_relationships content file_path entity_map =
     map (\<lambda>m. \<lparr>edge_from = group m 2, edge_to = group m 1, relationship = ''implements'',
                source = file_path\<rparr>)
       (re_finditer impl_pattern content)
     @ concat (map (\<lambda>m. map (\<lambda>derive_trait.
                               \<lparr>edge_from = group m 2, edge_to = derive_trait,
                                relationship = ''derives'', source = file_path\<rparr>)
                          (map py_strip (str_split (group m 1) '','')))
                 (re_finditer derive_pattern content))
     @ map (\<lambda>m. \<lparr>edge_from = path_stem file_path, edge_to = group m 1,
                  relationship = ''contains'', source = file_path\<rparr>)
         (re_finditer mod_pattern content)
     @ List.map_filter
         (\<lambda>m. let imported = last (str_split (group m 1) ''::'') in
               if entity_map imported \<noteq> None
               then Some \<lparr>edge_from = path_stem file_path, edge_to = imported,
                          relationship = ''uses'', source = file_path\<rparr>
               else None)
         (re_finditer use_pattern content)
     @ List.map_filter
         (\<lambda>m. let field_type = group m 2 in
               if entity_map field_type \<noteq> None \<and> field_type \<notin> set primitives
               then Some \<lparr>edge_from = ''field_usage'', edge_to = field_type,
                          relationship = ''references'', source = file_path\<rparr>
               else None)
         (re_finditer field_pattern content)"

text \<open>
  \<open>build_knowledge_graph\<close>. The loop over \<open>file_entities\<close>: an entity whose name is not yet
  a key of \<open>entity_map\<close> is stored there and appended to \<open>nodes\<close>.
\<close>

fun add_entities :: "entity list \<Rightarrow> (string \<rightharpoonup> entity) \<times> entity list
    \<Rightarrow> (string \<rightharpoonup> entity) \<times> entity list" where
  "add_entities [] acc = acc"
| "add_entities (entity # rest) (entity_map, ns) =
     (let entity_id = e_name entity in
      if entity_map entity_id = None
      then add_entities rest (entity_map(entity_id \<mapsto> entity), ns @ [entity])
      else add_entities rest (entity_map, ns))"

text \<open>
  The three variables the loop over the files updates, and its body for one file: a file
  with a path component \<open>target\<close> is skipped, and so is one whose \<open>read_text\<close> raises.
\<close>

record kg_state =
  kg_entity_map :: "string \<rightharpoonup> entity"
  kg_nodes :: "entity list"
  kg_edges :: "edge list"

definition process_file :: "project \<Rightarrow> source_file \<Rightarrow> kg_state \<Rightarrow> kg_state" where
  "process_file p rs_file st =
     (if ''target'' \<in> set (root_parts p @ rel_parts rs_file) then st
      else case file_text rs_file of
             None \<Rightarrow> st
           | Some content \<Rightarrow>
               (let file_entities = extract_entities content (rel_path rs_file);
                    (entity_map, ns) = add_entities file_entities (kg_entity_map st, kg_nodes st);
                    file_edges = extract_relationships content (rel_path rs_file) entity_map
                in \<lparr>kg_entity_map = entity_map, kg_nodes = ns,
                    kg_edges = kg_edges st @ file_edges\<rparr>))"

fun process_files :: "project \<Rightarrow> source_file list \<Rightarrow> kg_state \<Rightarrow> kg_state" where
  "process_files p [] st = st"
| "process_files p (rs_file # rest) st = process_files p rest (process_file p rs_file st)"

definition build_knowledge_graph :: "project \<Rightarrow> graph" where
  "build_knowledge_graph p =
     (let st = process_files p (rs_files p)
                 \<lparr>kg_entity_map = Map.empty, kg_nodes = [], kg_edges = []\<rparr>;
          cs = identify_clusters (kg_nodes st) (kg_edges st)
      in \<lparr>g_project = project_name p, nodes = kg_nodes st, edges = kg_edges st, clusters = cs,
          stats = \<lparr>total_nodes = length (kg_nodes st), total_edges = length (kg_edges st),
                    total_clusters = length cs\<rparr>\<rparr>)"

section \<open>Public items (analysis/api_surface.py)\<close>

text \<open>
  \<open>_extract_pub_items\<close> (analysis/api_surface.py). An item is the dictionary with the keys
  \<open>name\<close>, \<open>type\<close>, \<open>visibility\<close>, \<open>visibility_raw\<close>, \<open>file\<close>, \<open>line\<close> and, when a doc
  comment was found, \<open>doc\<close>.
\<close>

record api_item =
  i_name :: string
  i_type :: string
  i_visibility :: string
  i_visibility_raw :: string
  i_file :: string
  i_line :: nat
  i_doc :: "string option"

definition api_prefix :: regex where
  "api_prefix =
     Group 1 (seqs [Lit ''pub'',
                    Opt (seqs [Star space, Lit ''('', Star (not_char CHR '')''), Lit '')'']),
                    plus space])"

definition item_patterns :: "(string \<times> regex) list" where
  "item_patterns =
     [(''struct'', seqs [api_prefix, Lit ''struct'', plus space, Group 2 (plus word)]),
      (''enum'', seqs [api_prefix, Lit ''enum'', plus space, Group 2 (plus word)]),
      (''trait'', seqs [api_prefix, Lit ''trait'', plus space, Group 2 (plus word)]),
      (''fn'', seqs [api_prefix, Opt (seqs [Lit ''async'', plus space]), Lit ''fn'', plus space,
                     Group 2 (plus word)]),
      (''mod'', seqs [api_prefix, Lit ''mod'', plus space, Group 2 (plus word)]),
      (''type'', seqs [api_prefix, Lit ''type'', plus space, Group 2 (plus word)]),
      (''const'', seqs [api_prefix, Lit ''const'', plus space, Group 2 (plus word)]),
      (''static'', seqs [api_prefix, Lit ''static'', plus space, Group 2 (plus word)])]"

text \<open>\<open>_parse_visibility\<close>; its patterns all start with \<open>pub\s*\(\s*\<close>.\<close>

definition pub_paren :: "regex list \<Rightarrow> regex" where
  "pub_paren inner = seqs ([Lit ''pub'', Star space, Lit ''('', Star space] @ inner)"

definition parse_visibility :: "string \<Rightarrow> string" where
  "parse_visibility vis_str0 =
     (let vis_str = py_strip vis_str0 in
      if re_match (pub_paren [Lit ''crate'', Star space, Lit '')'']) vis_str then ''pub(crate)''
      else if re_match (pub_paren [Lit ''super'', Star space, Lit '')'']) vis_str
      then ''pub(super)''
      else if re_match (pub_paren [Lit ''self'', Star space, Lit '')'']) vis_str
      then ''pub(self)''
      else if re_match (pub_paren [Lit ''in'', plus space]) vis_str then ''pub(in ...)''
      else if prefix ''pub'' vis_str then ''pub''
      else ''private'')"

text \<open>The 1-based line of a position: \<open>content[:pos].count("\n") + 1\<close>.\<close>

definition line_of :: "string \<Rightarrow> nat \<Rightarrow> nat" where
  "line_of content pos = str_count (take pos content) ''\<newline>'' + 1"

text \<open>The body of the inner loop for one match: \<open>None\<close> when the name is skipped.\<close>

definition item_of_match :: "string \<Rightarrow> string \<Rightarrow> string \<Rightarrow> rmatch \<Rightarrow> api_item option" where
  "item_of_match content file_path item_type m =
     (let visibility_str = py_strip (group m 1); name = group m 2 in
      if name \<in> set [''self'', ''Self'', ''crate'', ''super''] then None
      else Some \<lparr>i_name = name, i_type = item_type,
                 i_visibility = parse_visibility visibility_str,
                 i_visibility_raw = visibility_str, i_file = file_path,
                 i_line = line_of content (m_start m), i_doc = None\<rparr>)"

text \<open>
  \<open>_extract_docstrings\<close>: a run of \<open>///\<close> lines or a \<open>/** ... */\<close> block followed by a
  declaration; the key \<open>f"{type}:{name}:{line}"\<close>; the text of the comment; and the loop
  over the matches, which stores the text under the key of the first item of that name at
  most four lines away.
\<close>

definition doc_pattern :: regex where
  "doc_pattern =
     seqs [Group 1 (Alt (plus (seqs [Lit ''///'', Star (not_char CHR ''\<newline>''),
                                     Lit ''\<newline>'']))
                        (seqs [Lit ''/**'', Lazy (Cls (\<lambda>c. True)), Lit ''*/''])),
           Star space,
           Opt (seqs [Lit ''pub'',
                      Opt (seqs [Star space, Lit ''('', Star (not_char CHR '')''), Lit '')'']),
                      plus space]),
           Opt (seqs [Lit ''async'', plus space]),
           alts [Lit ''struct'', Lit ''enum'', Lit ''trait'', Lit ''fn'', Lit ''mod'',
                 Lit ''type'', Lit ''const'', Lit ''static''],
           plus space, Group 2 (plus word)]"

definition item_key :: "api_item \<Rightarrow> string" where
  "item_key item = i_type item @ '':'' @ i_name item @ '':'' @ str_of_nat (i_line item)"

definition doc_text :: "string \<Rightarrow> string" where
  "doc_text doc_raw =
     (if prefix ''///'' doc_raw
      then join ''\<newline>''
             (map (\<lambda>line. py_strip (dropWhile (\<lambda>c. c = CHR ''/'') line))
                (filter (\<lambda>line. prefix ''///'' (py_strip line))
                   (str_split doc_raw ''\<newline>'')))
      else py_strip (strip_chars (strip_chars doc_raw ''/*'') ''*/''))"

fun extract_docstrings_from :: "string \<Rightarrow> api_item list \<Rightarrow> rmatch list
    \<Rightarrow> (string \<rightharpoonup> string) \<Rightarrow> (string \<rightharpoonup> string)" where
  "extract_docstrings_from content items [] docstrings = docstrings"
| "extract_docstrings_from content items (m # ms) docstrings =
     (let doc = doc_text (group m 1); name = group m 2 in
      if doc \<noteq> []
      then (let line_num = line_of content (m_start m) in
            case find (\<lambda>item. i_name item = name
                               \<and> \<bar>int (i_line item) - int line_num\<bar> < 5) items of
              None \<Rightarrow> extract_docstrings_from content items ms docstrings
            | Some item \<Rightarrow>
                extract_docstrings_from content items ms
                  (docstrings(item_key item \<mapsto> take 200 doc)))
      else extract_docstrings_from content items ms docstrings)"

definition extract_docstrings :: "string \<Rightarrow> api_item list \<Rightarrow> (string \<rightharpoonup> string)" where
  "extract_docstrings content items =
     extract_docstrings_from content items (re_finditer doc_pattern content) Map.empty"

definition extract_pub_items :: "string \<Rightarrow> string \<Rightarrow> api_item list" where
  "extract_pub_items content file_path =
     (let items = concat (map (\<lambda>(item_type, pattern).
                                 List.map_filter (item_of_match content file_path item_type)
                                   (re_finditer pattern content))
                            item_patterns);
          docstrings = extract_docstrings content items
      in map (\<lambda>item. case docstrings (item_key item) of
                         None \<Rightarrow> item
                       | Some d \<Rightarrow> item\<lparr>i_doc := Some d\<rparr>) items)"

section \<open>The entities a run scans\<close>

text \<open>
  The entities \<open>_extract_entities\<close> returns for one file of the project (none for a file
  that \<open>build_knowledge_graph\<close> skips), and those of all files in the order the loops
  visit them: file by file, within a file pattern by pattern, within a pattern by position.
\<close>

definition file_entities_of :: "project \<Rightarrow> source_file \<Rightarrow> entity list" where
  "file_entities_of p rs_file =
     (if ''target'' \<in> set (root_parts p @ rel_parts rs_file) then []
      else case file_text rs_file of
             None \<Rightarrow> []
           | Some content \<Rightarrow> extract_entities content (rel_path rs_file))"

definition scanned_entities :: "project \<Rightarrow> entity list" where
  "scanned_entities p = concat (map (file_entities_of p) (rs_files p))"

text \<open>
  The invariant of the loops of \<open>build_knowledge_graph\<close> after the entities \<open>seen\<close>:
  \<open>entity_map\<close> maps a name to the first entity seen with it, and \<open>nodes\<close> lists the values
  of \<open>entity_map\<close>, in the order seen.
\<close>

definition kg_inv :: "(string \<rightharpoonup> entity) \<Rightarrow> entity list \<Rightarrow> entity list \<Rightarrow> bool" where
  "kg_inv em ns seen \<longleftrightarrow>
     em = (\<lambda>x. find (\<lambda>e. e_name e = x) seen) \<and> distinct (map e_name ns)
     \<and> set ns = ran em \<and> subseq ns seen"

section \<open>Example inputs\<close>

text \<open>A project of one crate whose only source file is \<open>src/lib.rs\<close> with the given text.\<close>

definition single_file_project :: "string \<Rightarrow> project" where
  "single_file_project code =
     \<lparr>root_parts = [''home'', ''demo''],
      rs_files = [\<lparr>rel_parts = [''src'', ''lib.rs''], file_text = Some code\<rparr>],
      cargo_toml = None, cargo_packages = Some 1, existing = [''src/lib.rs'']\<rparr>"

text \<open>A workspace of five packages without source files of its own.\<close>

definition five_crate_workspace :: project where
  "five_crate_workspace =
     \<lparr>root_parts = [''home'', ''ws''], rs_files = [], cargo_toml = Some ''[workspace]'',
      cargo_packages = Some 5, existing = [''Cargo.toml'']\<rparr>"

text \<open>Six public module declarations, one per line.\<close>

definition six_pub_mods :: string where
  "six_pub_mods =
     ''pub mod a;\<newline>pub mod b;\<newline>pub mod c;\<newline>pub mod e;\<newline>pub mod f;\<newline>pub mod g;''"

definition builder_sig :: signature where
  "builder_sig = [(''keywords'', [''Builder'', ''build()'', ''with_''])]"

definition six_keyword_sig :: signature where
  "six_keyword_sig = [(''keywords'', [''Builder'', ''k2'', ''k3'', ''k4'', ''k5'', ''k6''])]"

definition builder_code :: string where
  "builder_code = ''struct FooBuilder; fn with_x() {}''"

text \<open>A regular-expression search that never matches, for signatures without patterns.\<close>

definition no_match :: "string \<Rightarrow> string \<Rightarrow> bool" where
  "no_match pat s = False"

text \<open>A graph of \<open>k\<close> public functions \<open>f0\<close>, \<open>f1\<close>, ... declared in \<open>src/lib.rs\<close>.\<close>

definition many_pub_fns :: "nat \<Rightarrow> graph" where
  "many_pub_fns k =
     (let ns = map (\<lambda>i. \<lparr>e_id = ''f'' @ str_of_nat i, e_name = ''f'' @ str_of_nat i,
                          e_type = ''fn'', e_module = ''src/lib.rs'', e_visibility = ''pub''\<rparr>)
                 [0..<k]
      in \<lparr>g_project = ''demo'', nodes = ns, edges = [], clusters = identify_clusters ns [],
          stats = \<lparr>total_nodes = length ns, total_edges = 0,
                    total_clusters = length (identify_clusters ns [])\<rparr>\<rparr>)"



text \<open>
  Two files that declare \<open>Foo\<close> three times; a project without source files; and one
  whose only source file lies under \<open>target\<close>.
\<close>

definition same_name_project :: project where
  "same_name_project =
     \<lparr>root_parts = [''home'', ''demo''],
      rs_files = [\<lparr>rel_parts = [''src'', ''a.rs''],
                   file_text = Some ''fn Foo() {} pub struct Foo;''\<rparr>,
                  \<lparr>rel_parts = [''src'', ''b.rs''], file_text = Some ''enum Foo {}''\<rparr>],
      cargo_toml = None, cargo_packages = Some 1, existing = []\<rparr>"

definition empty_project :: project where
  "empty_project =
     \<lparr>root_parts = [''home'', ''empty''], rs_files = [], cargo_toml = None,
      cargo_packages = None, existing = []\<rparr>"

definition target_only_project :: project where
  "target_only_project =
     \<lparr>root_parts = [''home'', ''built''],
      rs_files = [\<lparr>rel_parts = [''target'', ''debug'', ''gen.rs''],
                   file_text = Some ''pub struct Generated;''\<rparr>],
      cargo_toml = None, cargo_packages = None, existing = []\<rparr>"

section \<open>Properties of the pattern detector\<close>

lemma tally_eq:
  "tally hit label w xs st =
     st\<lparr>evidence_acc := evidence_acc st @ map label (filter hit xs),
        score := score st + w * length (filter hit xs)\<rparr>"
  by (induction xs arbitrary: st) simp_all

lemma check_keywords_eq:
  "check_keywords sg all_code st =
     st\<lparr>evidence_acc := evidence_acc st @
            map (\<lambda>kw. ''keyword: '' @ kw) (filter (\<lambda>kw. str_in kw all_code) (sig_get sg ''keywords'')),
        score := score st + length (filter (\<lambda>kw. str_in kw all_code) (sig_get sg ''keywords'')),
        max_score := max_score st + length (sig_get sg ''keywords'')\<rparr>"
  by (simp add: check_keywords_def Let_def tally_eq)

lemma check_imports_eq:
  "check_imports sg all_code cargo st =
     st\<lparr>evidence_acc := evidence_acc st @
            map (\<lambda>imp. ''import: '' @ imp)
              (filter (\<lambda>imp. str_in imp cargo \<or> str_in (''use '' @ imp) all_code) (sig_get sg ''imports'')),
        score := score st + 2 * length (filter (\<lambda>imp. str_in imp cargo \<or> str_in (''use '' @ imp) all_code) (sig_get sg ''imports'')),
        max_score := max_score st + length (sig_get sg ''imports'') * 2\<rparr>"
  by (simp add: check_imports_def Let_def tally_eq)

lemma check_patterns_eq:
  "check_patterns re_search sg all_code st =
     st\<lparr>evidence_acc := evidence_acc st @
            map (\<lambda>pat. ''pattern: '' @ take 30 pat @ ''...'')
              (filter (\<lambda>pat. re_search pat all_code) (sig_get sg ''patterns'')),
        score := score st + length (filter (\<lambda>pat. re_search pat all_code) (sig_get sg ''patterns'')),
        max_score := max_score st + length (sig_get sg ''patterns'')\<rparr>"
  by (simp add: check_patterns_def Let_def tally_eq)

lemma check_traits_eq:
  "check_traits sg all_code st =
     st\<lparr>evidence_acc := evidence_acc st @
            map (\<lambda>t. ''trait: '' @ t) (filter (\<lambda>t. str_in t all_code) (sig_get sg ''traits'')),
        score := score st + length (filter (\<lambda>t. str_in t all_code) (sig_get sg ''traits'')),
        max_score := max_score st + length (sig_get sg ''traits'')\<rparr>"
  by (simp add: check_traits_def Let_def tally_eq)

lemmas check_eqs = check_keywords_eq check_imports_eq check_patterns_eq check_traits_eq

lemma score_le_max:
  "score (score_signature re_search sg all_code cargo) \<le> max_score (score_signature re_search sg all_code cargo)"
  unfolding score_signature_def check_eqs init_state_def
  by (simp add: add_mono)

lemma score_pos_evidence:
  "score (score_signature re_search sg all_code cargo) > 0 \<Longrightarrow> evidence_acc (score_signature re_search sg all_code cargo) \<noteq> []"
  unfolding score_signature_def check_eqs init_state_def
  by auto

lemma detect_pattern_total: "\<exists>r. detect_pattern re_search all_code cargo entry = Inr r"
  by (simp add: detect_pattern_def Let_def true_div_def)

lemma detect_pattern_Some:
  assumes "detect_pattern re_search all_code cargo entry = Inr (Some d)"
  shows "2/10 \<le> confidence d \<and> confidence d \<le> 1 \<and> evidence d \<noteq> [] \<and> name d = fst entry"
  using assms score_pos_evidence[of re_search "snd entry" all_code cargo]
  by (auto simp: detect_pattern_def Let_def true_div_def split: if_splits)

lemma detect_patterns_set:
  "\<exists>ds. detect_patterns re_search all_code cargo entries detected = Inr ds
     \<and> set ds = set detected \<union> {d. \<exists>e\<in>set entries. detect_pattern re_search all_code cargo e = Inr (Some d)}"
proof (induction entries arbitrary: detected)
  case Nil
  then show ?case by simp
next
  case (Cons e es)
  obtain r where r: "detect_pattern re_search all_code cargo e = Inr r"
    using detect_pattern_total by blast
  show ?case
  proof (cases r)
    case None
    with r Cons.IH[of detected] show ?thesis by auto
  next
    case (Some d)
    with r Cons.IH[of "detected @ [d]"] show ?thesis by auto
  qed
qed

lemma set_sort_by_confidence: "set (sort_by_confidence ds) = set ds"
  by (simp add: sort_by_confidence_def)

lemma analyze_with_set:
  "\<exists>ds. analyze_with sigs re_search p = Inr ds
     \<and> set ds = {d. \<exists>e\<in>set sigs. detect_pattern re_search (all_code_of p) (cargo_content_of p) e = Inr (Some d)}"
proof -
  obtain ds where "detect_patterns re_search (all_code_of p) (cargo_content_of p) sigs [] = Inr ds"
    and "set ds = set [] \<union> {d. \<exists>e\<in>set sigs. detect_pattern re_search (all_code_of p) (cargo_content_of p) e = Inr (Some d)}"
    using detect_patterns_set by blast
  then show ?thesis by (simp add: analyze_with_def set_sort_by_confidence)
qed

lemma score_signature_keywords_only:
  assumes "sig_get sg ''imports'' = []" "sig_get sg ''patterns'' = []" "sig_get sg ''traits'' = []"
  shows "score_signature re_search sg all_code cargo =
     \<lparr>evidence_acc = map (\<lambda>kw. ''keyword: '' @ kw) (filter (\<lambda>kw. str_in kw all_code) (sig_get sg ''keywords'')),
      score = length (filter (\<lambda>kw. str_in kw all_code) (sig_get sg ''keywords'')),
      max_score = length (sig_get sg ''keywords'')\<rparr>"
  using assms unfolding score_signature_def check_eqs init_state_def by simp

lemma detect_pattern_two_of_three:
  assumes "sig_get sg ''keywords'' = [k1, k2, k3]"
    and "sig_get sg ''imports'' = []" "sig_get sg ''patterns'' = []" "sig_get sg ''traits'' = []"
    and "length (filter (\<lambda>kw. str_in kw all_code) [k1, k2, k3]) = 2"
  shows "detect_pattern re_search all_code cargo (nm, sg) =
     Inr (Some \<lparr>confidence = 2 / 3,
                evidence = map (\<lambda>kw. ''keyword: '' @ kw) (filter (\<lambda>kw. str_in kw all_code) [k1, k2, k3]),
                name = nm\<rparr>)"
proof -
  have st: "score_signature re_search sg all_code cargo =
     \<lparr>evidence_acc = map (\<lambda>kw. ''keyword: '' @ kw) (filter (\<lambda>kw. str_in kw all_code) [k1, k2, k3]),
      score = 2, max_score = 3\<rparr>"
    using score_signature_keywords_only[OF assms(2-4), of re_search all_code cargo] assms(1,5)
    by simp
  show ?thesis
    by (simp add: detect_pattern_def Let_def st true_div_def)
qed

lemma detect_pattern_below:
  assumes "real (score (score_signature re_search sg all_code cargo))
             / real (max_score (score_signature re_search sg all_code cargo)) < 2 / 10"
  shows "detect_pattern re_search all_code cargo (nm, sg) = Inr None"
proof -
  define q where "q = real (score (score_signature re_search sg all_code cargo))
             / real (max_score (score_signature re_search sg all_code cargo))"
  have "\<not> 2 / 10 \<le> min q 1" using assms unfolding q_def[symmetric] by simp
  then show ?thesis
    unfolding detect_pattern_def Let_def true_div_def q_def by simp
qed

lemma analyze_with_total: "\<exists>ds. analyze_with sigs re_search p = Inr ds"
  using analyze_with_set by blast

section \<open>Properties of the style detector\<close>

lemma detect_style_cases:
  fixes combined entry
  defines "found \<equiv> filter (\<lambda>indicator. str_in indicator combined) (indicators (snd entry))"
  shows "detect_style combined entry = Inr None
     \<or> (fst entry \<notin> set [''Modular Monolith'', ''Multi-Crate Workspace''] \<and> found \<noteq> []
        \<and> 3 / 10 \<le> real (length found) / real (length (indicators (snd entry)))
        \<and> detect_style combined entry =
            Inr (Some \<lparr>confidence = real (length found) / real (length (indicators (snd entry))),
                       evidence = found, style = fst entry,
                       description_of = description (snd entry)\<rparr>))"
proof (cases "fst entry \<in> set [''Modular Monolith'', ''Multi-Crate Workspace'']")
  case True
  then show ?thesis unfolding detect_style_def Let_def by (simp only: if_True simp_thms)
next
  case False
  show ?thesis
  proof (cases "found = []")
    case True
    with False show ?thesis
      unfolding detect_style_def Let_def found_def by (simp only: if_False if_True simp_thms not_True_eq_False)
  next
    case ne: False
    then have "length (indicators (snd entry)) \<noteq> 0"
      unfolding found_def by auto
    then have td: "true_div (length found) (length (indicators (snd entry)))
        = Inr (real (length found) / real (length (indicators (snd entry))))"
      by (simp add: true_div_def)
    show ?thesis
    proof (cases "3 / 10 \<le> real (length found) / real (length (indicators (snd entry)))")
      case True
      with False ne td show ?thesis
        unfolding detect_style_def Let_def found_def
        by (simp only: if_False if_True simp_thms sum.case not_False_eq_True)
    next
      case False
      with \<open>fst entry \<notin> _\<close> ne td show ?thesis
        unfolding detect_style_def Let_def found_def
        by (simp only: if_False if_True simp_thms sum.case not_False_eq_True)
    qed
  qed
qed

lemma detect_style_total: "\<exists>r. detect_style combined entry = Inr r"
  using detect_style_cases[of combined entry] by blast

lemma detect_style_Some:
  assumes "detect_style combined entry = Inr (Some d)"
  shows "3 / 10 \<le> confidence d \<and> confidence d \<le> 1 \<and> evidence d \<noteq> []
         \<and> style d = fst entry \<and> style d \<noteq> ''Modular Monolith''
         \<and> style d \<noteq> ''Multi-Crate Workspace''"
proof -
  let ?found = "filter (\<lambda>indicator. str_in indicator combined) (indicators (snd entry))"
  let ?q = "real (length ?found) / real (length (indicators (snd entry)))"
  from detect_style_cases[of combined entry] assms
  have nm: "fst entry \<notin> set [''Modular Monolith'', ''Multi-Crate Workspace'']"
    and ne: "?found \<noteq> []" and ge: "3 / 10 \<le> ?q"
    and d: "d = \<lparr>confidence = ?q, evidence = ?found, style = fst entry,
                 description_of = description (snd entry)\<rparr>"
    by auto
  from ne have "indicators (snd entry) \<noteq> []" by auto
  then have le: "?q \<le> 1" by simp
  from nm have "fst entry \<noteq> ''Modular Monolith''" "fst entry \<noteq> ''Multi-Crate Workspace''"
    by (simp_all del: list.inject)
  with ne ge le show ?thesis unfolding d by simp
qed

lemma detect_styles_set:
  "\<exists>ds. detect_styles combined entries detected = Inr ds
     \<and> set ds = set detected \<union> {d. \<exists>e\<in>set entries. detect_style combined e = Inr (Some d)}"
proof (induction entries arbitrary: detected)
  case Nil
  then show ?case by simp
next
  case (Cons e es)
  obtain r where r: "detect_style combined e = Inr r"
    using detect_style_total by blast
  show ?case
  proof (cases r)
    case None
    with r Cons.IH[of detected] show ?thesis by auto
  next
    case (Some d)
    with r Cons.IH[of "detected @ [d]"] show ?thesis by auto
  qed
qed

lemma detect_architecture_style_with_set:
  assumes "detect_architecture_style_with styles p = Inr ds"
  shows "\<exists>ds0. check_workspace styles (analyze_workspace p) (all_code_of p) = Inr ds0
     \<and> set ds = set ds0 \<union> {d. \<exists>e\<in>set styles.
           detect_style (all_code_of p @ cargo_content_of p) e = Inr (Some d)}"
proof -
  from assms obtain ds0 where ds0: "check_workspace styles (analyze_workspace p) (all_code_of p) = Inr ds0"
    by (auto simp: detect_architecture_style_with_def Let_def split: sum.splits)
  obtain ds1 where ds1: "detect_styles (all_code_of p @ cargo_content_of p) styles ds0 = Inr ds1"
    and s1: "set ds1 = set ds0 \<union> {d. \<exists>e\<in>set styles.
           detect_style (all_code_of p @ cargo_content_of p) e = Inr (Some d)}"
    using detect_styles_set by blast
  from assms ds0 ds1 have "ds = sort_by_confidence ds1"
    by (simp add: detect_architecture_style_with_def Let_def)
  with ds0 s1 show ?thesis by (simp add: set_sort_by_confidence)
qed

lemma check_workspace_Inr:
  assumes "check_workspace styles ws all_code = Inr ds" "d \<in> set ds"
  shows "(confidence d = 9 / 10 \<and> style d = ''Multi-Crate Workspace'' \<and> is_workspace ws
            \<or> confidence d = 7 / 10 \<and> style d = ''Modular Monolith'' \<and> \<not> is_workspace ws
               \<and> str_count all_code ''mod '' + str_count all_code ''pub mod '' > 10)
         \<and> evidence d \<noteq> []"
proof (cases "is_workspace ws \<and> (case package_count ws of None \<Rightarrow> 0 | Some n \<Rightarrow> n) > 3")
  case True
  then obtain n where n: "package_count ws = Some n" by (cases "package_count ws") auto
  from assms(1) True n obtain dsc where
    "ds = [\<lparr>confidence = 9 / 10, evidence = [''Workspace with '' @ str_of_nat n @ '' packages''],
            style = ''Multi-Crate Workspace'', description_of = dsc\<rparr>]"
    unfolding check_workspace_def by (cases "style_description styles ''Multi-Crate Workspace''") auto
  with assms(2) True show ?thesis by simp
next
  case False
  note nA = this
  show ?thesis
  proof (cases "is_workspace ws")
    case True
    with nA assms(1) have "ds = []" unfolding check_workspace_def by simp
    with assms(2) show ?thesis by simp
  next
    case nw: False
    let ?mc = "str_count all_code ''mod '' + str_count all_code ''pub mod ''"
    show ?thesis
    proof (cases "?mc > 10")
      case True
      from assms(1) nA nw True obtain dsc where
        "ds = [\<lparr>confidence = 7 / 10,
                evidence = [''Single crate with '' @ str_of_nat ?mc @ ''+ module declarations''],
                style = ''Modular Monolith'', description_of = dsc\<rparr>]"
        unfolding check_workspace_def Let_def
        by (cases "style_description styles ''Modular Monolith''") auto
      with assms(2) nw True show ?thesis by simp
    next
      case False
      with nA nw assms(1) have "ds = []" unfolding check_workspace_def Let_def by simp
      with assms(2) show ?thesis by simp
    qed
  qed
qed

lemma style_description_known:
  "\<exists>d. style_description ARCHITECTURE_STYLES ''Multi-Crate Workspace'' = Inr d"
  "\<exists>d. style_description ARCHITECTURE_STYLES ''Modular Monolith'' = Inr d"
  by (simp_all add: style_description_def ARCHITECTURE_STYLES_def)

lemma check_workspace_total:
  "\<exists>ds0. check_workspace ARCHITECTURE_STYLES (analyze_workspace p) code = Inr ds0"
proof -
  obtain d1 d2 where d: "style_description ARCHITECTURE_STYLES ''Multi-Crate Workspace'' = Inr d1"
     "style_description ARCHITECTURE_STYLES ''Modular Monolith'' = Inr d2"
    using style_description_known by blast
  show ?thesis
    unfolding check_workspace_def analyze_workspace_def Let_def d
    by (cases "cargo_packages p") simp_all
qed

lemma detect_architecture_style_total: "\<exists>ds. detect_architecture_style p = Inr ds"
proof -
  obtain ds0 where ds0: "check_workspace ARCHITECTURE_STYLES (analyze_workspace p) (all_code_of p) = Inr ds0"
    using check_workspace_total by blast
  obtain ds1 where ds1: "detect_styles (all_code_of p @ cargo_content_of p) ARCHITECTURE_STYLES ds0 = Inr ds1"
    using detect_styles_set by blast
  show ?thesis
    by (simp add: detect_architecture_style_def detect_architecture_style_with_def Let_def ds0 ds1)
qed

text \<open>
  What the second workspace-shape check does for a project that is no workspace: the
  detection is there exactly when the sum of the two counts exceeds 10.
\<close>

lemma modular_monolith_emitted_iff:
  assumes nw: "\<not> is_workspace (analyze_workspace p)"
  shows "\<exists>ds. detect_architecture_style p = Inr ds
           \<and> ((\<exists>d \<in> set ds. style d = ''Modular Monolith'')
                \<longleftrightarrow> str_count (all_code_of p) ''mod '' + str_count (all_code_of p) ''pub mod '' > 10)"
proof -
  let ?mc = "str_count (all_code_of p) ''mod '' + str_count (all_code_of p) ''pub mod ''"
  obtain ds where ds: "detect_architecture_style_with ARCHITECTURE_STYLES p = Inr ds"
    using detect_architecture_style_total[of p] by (auto simp: detect_architecture_style_def)
  from detect_architecture_style_with_set[OF ds] obtain ds0 where
    ds0: "check_workspace ARCHITECTURE_STYLES (analyze_workspace p) (all_code_of p) = Inr ds0"
    and st: "set ds = set ds0 \<union> {d. \<exists>e\<in>set ARCHITECTURE_STYLES.
           detect_style (all_code_of p @ cargo_content_of p) e = Inr (Some d)}"
    by blast
  have gen: "style d \<noteq> ''Modular Monolith''"
    if "detect_style (all_code_of p @ cargo_content_of p) e = Inr (Some d)" for d e
    using detect_style_Some[OF that] by blast
  have "(\<exists>d \<in> set ds0. style d = ''Modular Monolith'') \<longleftrightarrow> ?mc > 10"
  proof
    assume "\<exists>d \<in> set ds0. style d = ''Modular Monolith''"
    then obtain d where d: "d \<in> set ds0" "style d = ''Modular Monolith''" by blast
    from check_workspace_Inr[OF ds0 d(1)] d(2) nw show "?mc > 10" by auto
  next
    assume gt: "?mc > 10"
    obtain dsc where dsc: "style_description ARCHITECTURE_STYLES ''Modular Monolith'' = Inr dsc"
      using style_description_known(2) by blast
    from ds0 nw gt dsc have "ds0 = [\<lparr>confidence = 7 / 10,
                evidence = [''Single crate with '' @ str_of_nat ?mc @ ''+ module declarations''],
                style = ''Modular Monolith'', description_of = dsc\<rparr>]"
      unfolding check_workspace_def Let_def by simp
    then show "\<exists>d \<in> set ds0. style d = ''Modular Monolith''" by simp
  qed
  with st gen have "(\<exists>d \<in> set ds. style d = ''Modular Monolith'') \<longleftrightarrow> ?mc > 10"
    by blast
  with ds show ?thesis by (simp add: detect_architecture_style_def)
qed

section \<open>The claims about detection\<close>

text \<open>
  Claim C1. A signature whose only evidence category is a list of three keywords, exactly
  two of which occur in the corpus, is reported by \<open>analyze\<close> with confidence \<open>2/3\<close>. A
  signature whose quotient \<open>score / max_score\<close> is below \<open>0.2\<close> (the quotient counts as 0
  when \<open>max_score\<close> is 0) appends no detection, and every detection in the result has
  confidence at least \<open>0.2\<close>.
\<close>

theorem two_of_three_keywords_confidence:
  "((nm, sg) \<in> set sigs \<and> sig_get sg ''keywords'' = [k1, k2, k3]
      \<and> sig_get sg ''imports'' = [] \<and> sig_get sg ''patterns'' = [] \<and> sig_get sg ''traits'' = []
      \<and> length (filter (\<lambda>kw. str_in kw (all_code_of p)) [k1, k2, k3]) = 2
     \<longrightarrow> (\<exists>ds. analyze_with sigs re_search p = Inr ds
            \<and> \<lparr>confidence = 2 / 3,
                evidence = map (\<lambda>kw. ''keyword: '' @ kw)
                             (filter (\<lambda>kw. str_in kw (all_code_of p)) [k1, k2, k3]),
                name = nm\<rparr> \<in> set ds))
   \<and> (real (score (score_signature re_search sg' all_code cargo))
          / real (max_score (score_signature re_search sg' all_code cargo)) < 2 / 10
     \<longrightarrow> detect_pattern re_search all_code cargo (nm', sg') = Inr None)
   \<and> (analyze_with sigs re_search p = Inr ds' \<and> d \<in> set ds' \<longrightarrow> 2 / 10 \<le> confidence d)"
proof (intro conjI impI)
  assume a: "(nm, sg) \<in> set sigs \<and> sig_get sg ''keywords'' = [k1, k2, k3]
      \<and> sig_get sg ''imports'' = [] \<and> sig_get sg ''patterns'' = [] \<and> sig_get sg ''traits'' = []
      \<and> length (filter (\<lambda>kw. str_in kw (all_code_of p)) [k1, k2, k3]) = 2"
  then have "detect_pattern re_search (all_code_of p) (cargo_content_of p) (nm, sg) =
     Inr (Some \<lparr>confidence = 2 / 3,
                evidence = map (\<lambda>kw. ''keyword: '' @ kw)
                             (filter (\<lambda>kw. str_in kw (all_code_of p)) [k1, k2, k3]),
                name = nm\<rparr>)"
    by (intro detect_pattern_two_of_three) simp_all
  with a analyze_with_set[of sigs re_search p]
  show "\<exists>ds. analyze_with sigs re_search p = Inr ds
            \<and> \<lparr>confidence = 2 / 3,
                evidence = map (\<lambda>kw. ''keyword: '' @ kw)
                             (filter (\<lambda>kw. str_in kw (all_code_of p)) [k1, k2, k3]),
                name = nm\<rparr> \<in> set ds"
    by blast
next
  assume "real (score (score_signature re_search sg' all_code cargo))
          / real (max_score (score_signature re_search sg' all_code cargo)) < 2 / 10"
  then show "detect_pattern re_search all_code cargo (nm', sg') = Inr None"
    by (rule detect_pattern_below)
next
  assume a: "analyze_with sigs re_search p = Inr ds' \<and> d \<in> set ds'"
  with analyze_with_set[of sigs re_search p]
  obtain e where "detect_pattern re_search (all_code_of p) (cargo_content_of p) e = Inr (Some d)"
    by auto
  then show "2 / 10 \<le> confidence d" using detect_pattern_Some by blast
qed

theorem two_of_three_keywords_confidence_witness:
  "(\<exists>ds. analyze_with [(''Builder'', builder_sig), (''Six'', six_keyword_sig)] no_match
             (single_file_project builder_code) = Inr ds
         \<and> \<lparr>confidence = 2 / 3, evidence = [''keyword: Builder'', ''keyword: with_''],
             name = ''Builder''\<rparr> \<in> set ds)
   \<and> real (score (score_signature no_match six_keyword_sig builder_code []))
        / real (max_score (score_signature no_match six_keyword_sig builder_code [])) = 1 / 6
   \<and> detect_pattern no_match builder_code [] (''Six'', six_keyword_sig) = Inr None
   \<and> 2 / 10 \<le> confidence \<lparr>confidence = 2 / 3,
         evidence = [''keyword: Builder'', ''keyword: with_''], name = ''Builder''\<rparr>"
proof -
  let ?sigs = "[(''Builder'', builder_sig), (''Six'', six_keyword_sig)]"
  let ?p = "single_file_project builder_code"
  let ?d = "\<lparr>confidence = 2 / 3, evidence = [''keyword: Builder'', ''keyword: with_''],
             name = ''Builder''\<rparr>"
  note T = two_of_three_keywords_confidence[where nm = "''Builder''" and sg = builder_sig
      and sigs = ?sigs and ?k1.0 = "''Builder''" and ?k2.0 = "''build()''" and ?k3.0 = "''with_''"
      and p = ?p and re_search = no_match and sg' = six_keyword_sig and all_code = builder_code
      and cargo = "[]" and nm' = "''Six''" and ds' = "[?d]" and d = ?d]
  have h1: "(''Builder'', builder_sig) \<in> set ?sigs
      \<and> sig_get builder_sig ''keywords'' = [''Builder'', ''build()'', ''with_'']
      \<and> sig_get builder_sig ''imports'' = [] \<and> sig_get builder_sig ''patterns'' = []
      \<and> sig_get builder_sig ''traits'' = []
      \<and> length (filter (\<lambda>kw. str_in kw (all_code_of ?p))
                  [''Builder'', ''build()'', ''with_'']) = 2"
    by code_simp
  have ev: "map (\<lambda>kw. ''keyword: '' @ kw)
              (filter (\<lambda>kw. str_in kw (all_code_of ?p)) [''Builder'', ''build()'', ''with_''])
            = [''keyword: Builder'', ''keyword: with_'']"
    by code_simp
  have h2: "real (score (score_signature no_match six_keyword_sig builder_code []))
        / real (max_score (score_signature no_match six_keyword_sig builder_code [])) = 1 / 6"
    by code_simp
  have h3: "analyze_with ?sigs no_match ?p = Inr [?d] \<and> ?d \<in> set [?d]"
    by code_simp
  from T h1 have c1: "\<exists>ds. analyze_with ?sigs no_match ?p = Inr ds \<and> ?d \<in> set ds"
    unfolding ev by blast
  from T h2 have c2: "detect_pattern no_match builder_code [] (''Six'', six_keyword_sig) = Inr None"
    by simp
  from T h3 have c3: "2 / 10 \<le> confidence ?d" by blast
  from c1 h2 c2 c3 show ?thesis by blast
qed

text \<open>
  Claim C2. Every detection returned by the pattern detector and by the style detector
  (the scored styles and the two workspace-shape checks) has its confidence in \<open>[0, 1]\<close>,
  for every corpus, manifest and table of signatures or styles.
\<close>

theorem detection_confidence_in_unit_interval:
  "(analyze_with sigs re_search p = Inr ds \<and> d \<in> set ds
      \<longrightarrow> 0 \<le> confidence d \<and> confidence d \<le> 1)
   \<and> (detect_architecture_style_with styles p = Inr ds' \<and> d' \<in> set ds'
      \<longrightarrow> 0 \<le> confidence d' \<and> confidence d' \<le> 1)"
proof (intro conjI impI)
  assume a: "analyze_with sigs re_search p = Inr ds \<and> d \<in> set ds"
  with analyze_with_set[of sigs re_search p]
  obtain e where "detect_pattern re_search (all_code_of p) (cargo_content_of p) e = Inr (Some d)"
    by auto
  from detect_pattern_Some[OF this] show "0 \<le> confidence d" "confidence d \<le> 1" by simp_all
next
  assume a: "detect_architecture_style_with styles p = Inr ds' \<and> d' \<in> set ds'"
  then obtain ds0 where ds0: "check_workspace styles (analyze_workspace p) (all_code_of p) = Inr ds0"
    and mem: "d' \<in> set ds0 \<or> (\<exists>e\<in>set styles.
           detect_style (all_code_of p @ cargo_content_of p) e = Inr (Some d'))"
    using detect_architecture_style_with_set[of styles p ds'] by auto
  from mem have "0 \<le> confidence d' \<and> confidence d' \<le> 1"
  proof
    assume "d' \<in> set ds0"
    from check_workspace_Inr[OF ds0 this] show ?thesis by auto
  next
    assume "\<exists>e\<in>set styles. detect_style (all_code_of p @ cargo_content_of p) e = Inr (Some d')"
    then obtain e where "detect_style (all_code_of p @ cargo_content_of p) e = Inr (Some d')"
      by blast
    from detect_style_Some[OF this] show ?thesis by simp
  qed
  then show "0 \<le> confidence d'" "confidence d' \<le> 1" by simp_all
qed

theorem detection_confidence_in_unit_interval_witness:
  "analyze_with PATTERN_SIGNATURES no_match (single_file_project builder_code)
     = Inr [\<lparr>confidence = 2 / 7, evidence = [''keyword: Builder'', ''keyword: with_''],
             name = ''Builder''\<rparr>]
   \<and> detect_architecture_style_with ARCHITECTURE_STYLES five_crate_workspace
     = Inr [\<lparr>confidence = 9 / 10, evidence = [''Workspace with 5 packages''],
             style = ''Multi-Crate Workspace'',
             description_of = ''Multiple crates in a workspace, each with specific responsibility''\<rparr>]
   \<and> (0::real) \<le> 2 / 7 \<and> (2::real) / 7 \<le> 1 \<and> (0::real) \<le> 9 / 10 \<and> (9::real) / 10 \<le> 1"
proof -
  let ?d = "\<lparr>confidence = 2 / 7, evidence = [''keyword: Builder'', ''keyword: with_''],
             name = ''Builder''\<rparr>"
  let ?d' = "\<lparr>confidence = 9 / 10, evidence = [''Workspace with 5 packages''],
             style = ''Multi-Crate Workspace'',
             description_of = ''Multiple crates in a workspace, each with specific responsibility''\<rparr>"
  have h1: "analyze_with PATTERN_SIGNATURES no_match (single_file_project builder_code) = Inr [?d]"
    by code_simp
  have h2: "detect_architecture_style_with ARCHITECTURE_STYLES five_crate_workspace = Inr [?d']"
    by code_simp
  from detection_confidence_in_unit_interval[where sigs = PATTERN_SIGNATURES
      and re_search = no_match and p = "single_file_project builder_code" and ds = "[?d]"
      and d = ?d] h1
  have c1: "0 \<le> confidence ?d \<and> confidence ?d \<le> 1" by simp
  from detection_confidence_in_unit_interval[where styles = ARCHITECTURE_STYLES
      and p = five_crate_workspace and ds' = "[?d']" and d' = ?d'] h2
  have c2: "0 \<le> confidence ?d' \<and> confidence ?d' \<le> 1" by simp
  from h1 h2 c1 c2 show ?thesis by simp
qed

text \<open>
  Claim C9. Every detection returned by the pattern detector and by the style detector
  carries a non-empty evidence list.
\<close>

theorem detection_evidence_nonempty:
  "(analyze_with sigs re_search p = Inr ds \<and> d \<in> set ds \<longrightarrow> evidence d \<noteq> [])
   \<and> (detect_architecture_style_with styles p = Inr ds' \<and> d' \<in> set ds'
      \<longrightarrow> evidence d' \<noteq> [])"
proof (intro conjI impI)
  assume a: "analyze_with sigs re_search p = Inr ds \<and> d \<in> set ds"
  with analyze_with_set[of sigs re_search p]
  obtain e where "detect_pattern re_search (all_code_of p) (cargo_content_of p) e = Inr (Some d)"
    by auto
  from detect_pattern_Some[OF this] show "evidence d \<noteq> []" by simp
next
  assume a: "detect_architecture_style_with styles p = Inr ds' \<and> d' \<in> set ds'"
  then obtain ds0 where ds0: "check_workspace styles (analyze_workspace p) (all_code_of p) = Inr ds0"
    and mem: "d' \<in> set ds0 \<or> (\<exists>e\<in>set styles.
           detect_style (all_code_of p @ cargo_content_of p) e = Inr (Some d'))"
    using detect_architecture_style_with_set[of styles p ds'] by auto
  from mem show "evidence d' \<noteq> []"
  proof
    assume "d' \<in> set ds0"
    from check_workspace_Inr[OF ds0 this] show ?thesis by auto
  next
    assume "\<exists>e\<in>set styles. detect_style (all_code_of p @ cargo_content_of p) e = Inr (Some d')"
    then obtain e where "detect_style (all_code_of p @ cargo_content_of p) e = Inr (Some d')"
      by blast
    from detect_style_Some[OF this] show ?thesis by simp
  qed
qed

theorem detection_evidence_nonempty_witness:
  "analyze_with PATTERN_SIGNATURES no_match (single_file_project ''use tokio; async fn f() {}'')
     = Inr [\<lparr>confidence = 3 / 10, evidence = [''keyword: async fn'', ''import: tokio''],
             name = ''Async/Await Runtime''\<rparr>]
   \<and> detect_architecture_style_with ARCHITECTURE_STYLES (single_file_project six_pub_mods)
     = Inr [\<lparr>confidence = 7 / 10, evidence = [''Single crate with 12+ module declarations''],
             style = ''Modular Monolith'',
             description_of = ''Single crate with well-organized internal modules by domain''\<rparr>]
   \<and> [''keyword: async fn'', ''import: tokio''] \<noteq> []
   \<and> [''Single crate with 12+ module declarations''] \<noteq> []"
proof -
  let ?p = "single_file_project ''use tokio; async fn f() {}''"
  let ?d = "\<lparr>confidence = 3 / 10, evidence = [''keyword: async fn'', ''import: tokio''],
             name = ''Async/Await Runtime''\<rparr>"
  let ?d' = "\<lparr>confidence = 7 / 10, evidence = [''Single crate with 12+ module declarations''],
             style = ''Modular Monolith'',
             description_of = ''Single crate with well-organized internal modules by domain''\<rparr>"
  have h1: "analyze_with PATTERN_SIGNATURES no_match ?p = Inr [?d]"
    by code_simp
  have h2: "detect_architecture_style_with ARCHITECTURE_STYLES (single_file_project six_pub_mods)
      = Inr [?d']"
    by code_simp
  from detection_evidence_nonempty[where sigs = PATTERN_SIGNATURES
      and re_search = no_match and p = ?p and ds = "[?d]" and d = ?d] h1
  have c1: "evidence ?d \<noteq> []" by simp
  from detection_evidence_nonempty[where styles = ARCHITECTURE_STYLES
      and p = "single_file_project six_pub_mods" and ds' = "[?d']" and d' = ?d'] h2
  have c2: "evidence ?d' \<noteq> []" by simp
  from h1 h2 c1 c2 show ?thesis by simp
qed

text \<open>
  Claim C6. A category missing from a signature leaves \<open>score\<close>, \<open>max_score\<close> and the
  evidence as they were. \<open>max_score\<close> is 0 exactly when every category is missing or
  empty; such a signature yields no detection, and neither one signature nor the whole run
  ever ends in an error: the division is not reached with a zero divisor.
\<close>

theorem missing_category_contributes_zero:
  "(map_of sg ''keywords'' = None \<longrightarrow> check_keywords sg all_code st = st)
   \<and> (map_of sg ''imports'' = None \<longrightarrow> check_imports sg all_code cargo st = st)
   \<and> (map_of sg ''patterns'' = None \<longrightarrow> check_patterns re_search sg all_code st = st)
   \<and> (map_of sg ''traits'' = None \<longrightarrow> check_traits sg all_code st = st)
   \<and> (max_score (score_signature re_search sg all_code cargo) = 0
        \<longleftrightarrow> (\<forall>key \<in> set [''keywords'', ''imports'', ''patterns'', ''traits''].
               sig_get sg key = []))
   \<and> (max_score (score_signature re_search sg all_code cargo) = 0
        \<longrightarrow> detect_pattern re_search all_code cargo (nm, sg) = Inr None)
   \<and> (\<exists>r. detect_pattern re_search all_code cargo entry = Inr r)
   \<and> (\<exists>ds. analyze_with sigs re_search p = Inr ds)"
proof (intro conjI impI)
  show "max_score (score_signature re_search sg all_code cargo) = 0
        \<longleftrightarrow> (\<forall>key \<in> set [''keywords'', ''imports'', ''patterns'', ''traits''].
               sig_get sg key = [])"
    unfolding score_signature_def check_eqs init_state_def by auto
  show "detect_pattern re_search all_code cargo (nm, sg) = Inr None"
    if "max_score (score_signature re_search sg all_code cargo) = 0"
    using that by (simp add: detect_pattern_def Let_def)
  show "\<exists>r. detect_pattern re_search all_code cargo entry = Inr r"
    by (rule detect_pattern_total)
  show "\<exists>ds. analyze_with sigs re_search p = Inr ds"
    by (rule analyze_with_total)
qed (simp_all add: check_keywords_def check_imports_def check_patterns_def check_traits_def
        sig_get_def)

theorem missing_category_contributes_zero_witness:
  "map_of ([] :: signature) ''keywords'' = None \<and> check_keywords [] builder_code init_state = init_state
   \<and> map_of ([] :: signature) ''imports'' = None \<and> check_imports [] builder_code [] init_state = init_state
   \<and> map_of ([] :: signature) ''patterns'' = None \<and> check_patterns no_match [] builder_code init_state = init_state
   \<and> map_of ([] :: signature) ''traits'' = None \<and> check_traits [] builder_code init_state = init_state
   \<and> sig_get [(''keywords'', []), (''traits'', [])] ''keywords'' = []
   \<and> sig_get [(''keywords'', []), (''traits'', [])] ''imports'' = []
   \<and> sig_get [(''keywords'', []), (''traits'', [])] ''patterns'' = []
   \<and> sig_get [(''keywords'', []), (''traits'', [])] ''traits'' = []
   \<and> max_score (score_signature no_match [(''keywords'', []), (''traits'', [])] builder_code []) = 0
   \<and> detect_pattern no_match builder_code [] (''Empty'', [(''keywords'', []), (''traits'', [])]) = Inr None"
proof -
  note T1 = missing_category_contributes_zero[where sg = "[]" and all_code = builder_code
     and st = init_state and cargo = "[]" and re_search = no_match]
  note T2 = missing_category_contributes_zero[where sg = "[(''keywords'', []), (''traits'', [])]"
     and all_code = builder_code and cargo = "[]" and re_search = no_match and nm = "''Empty''"]
  have h: "\<forall>key \<in> set [''keywords'', ''imports'', ''patterns'', ''traits''].
               sig_get [(''keywords'', []), (''traits'', [])] key = []"
    by code_simp
  from T2 h have m: "max_score (score_signature no_match [(''keywords'', []), (''traits'', [])] builder_code []) = 0"
    by blast
  with T2 have n: "detect_pattern no_match builder_code [] (''Empty'', [(''keywords'', []), (''traits'', [])]) = Inr None"
    by blast
  have g: "sig_get [(''keywords'', []), (''traits'', [])] ''keywords'' = []
      \<and> sig_get [(''keywords'', []), (''traits'', [])] ''imports'' = []
      \<and> sig_get [(''keywords'', []), (''traits'', [])] ''patterns'' = []
      \<and> sig_get [(''keywords'', []), (''traits'', [])] ''traits'' = []"
    by code_simp
  from T1 g m n show ?thesis by simp
qed

text \<open>
  Claim C3. A single-package project whose corpus holds six module declarations, all of
  them \<open>pub mod\<close>: \<open>module_count\<close> adds the six occurrences of \<open>"mod "\<close> and the
  six occurrences of \<open>"pub mod "\<close>, so the detector reports a Modular Monolith with
  "12+ module declarations".
\<close>

theorem modular_monolith_counts_pub_mod_twice:
  "str_count (all_code_of (single_file_project six_pub_mods)) ''mod '' = 6
   \<and> str_count (all_code_of (single_file_project six_pub_mods)) ''pub mod '' = 6
   \<and> is_workspace (analyze_workspace (single_file_project six_pub_mods)) = False
   \<and> detect_architecture_style (single_file_project six_pub_mods)
     = Inr [\<lparr>confidence = 7 / 10, evidence = [''Single crate with 12+ module declarations''],
             style = ''Modular Monolith'',
             description_of = ''Single crate with well-organized internal modules by domain''\<rparr>]"
  by code_simp

section \<open>The claims about the semantic index and the clusters\<close>

lemma public_apis_take_50:
  "public_apis (build_semantic_index p g) =
     map (\<lambda>api. \<lparr>api_name = e_name api, api_type = e_type api, api_module = e_module api\<rparr>)
       (take 50 (filter is_public_api (nodes g)))"
  by (simp add: build_semantic_index_def Let_def split: prod.splits)

lemma total_public_apis_full:
  "total_public_apis (si_stats (build_semantic_index p g)) = length (filter is_public_api (nodes g))"
  by (simp add: build_semantic_index_def Let_def split: prod.splits)

lemma many_pub_fns_all_public: "filter is_public_api (nodes (many_pub_fns k)) = nodes (many_pub_fns k)"
  by (simp add: many_pub_fns_def Let_def is_public_api_def)

lemma length_many: "length (nodes (many_pub_fns k)) = k"
  by (simp add: many_pub_fns_def Let_def)

text \<open>
  Claim C5, as stated, fails: with 51 public functions in the graph the emitted list has 50
  entries, while the count in the statistics is 51.
\<close>

theorem public_apis_capped_counterexample:
  "length (filter is_public_api (nodes (many_pub_fns 51))) = 51
   \<and> length (public_apis (build_semantic_index (single_file_project []) (many_pub_fns 51))) = 50
   \<and> total_public_apis (si_stats (build_semantic_index (single_file_project []) (many_pub_fns 51))) = 51"
  by (simp add: public_apis_take_50 total_public_apis_full many_pub_fns_all_public length_many)

text \<open>
  Claim C5, amended. \<open>build_semantic_index\<close> emits as \<open>public_apis\<close> the first 50, in node
  order, of the entities with visibility \<open>pub\<close> and kind \<open>fn\<close>, \<open>struct\<close> or \<open>trait\<close>, each
  with its name, kind and module, and reports the number of all such entities in
  \<open>stats.total_public_apis\<close>.
\<close>

theorem public_apis_first_50_and_full_count:
  "public_apis (build_semantic_index p g) =
     map (\<lambda>api. \<lparr>api_name = e_name api, api_type = e_type api, api_module = e_module api\<rparr>)
       (take 50 (filter (\<lambda>node. e_visibility node = ''pub''
                            \<and> e_type node \<in> set [''fn'', ''struct'', ''trait'']) (nodes g)))
   \<and> total_public_apis (si_stats (build_semantic_index p g)) =
       length (filter (\<lambda>node. e_visibility node = ''pub''
                            \<and> e_type node \<in> set [''fn'', ''struct'', ''trait'']) (nodes g))"
proof -
  have "is_public_api = (\<lambda>node. e_visibility node = ''pub''
                            \<and> e_type node \<in> set [''fn'', ''struct'', ''trait''])"
    by (rule ext) (simp only: is_public_api_def)
  then show ?thesis
    using public_apis_take_50[of p g] total_public_apis_full[of p g] by simp
qed

















section \<open>The claims about the extractors and the knowledge graph\<close>

lemma in_set_map_filter:
  "y \<in> set (List.map_filter f xs) \<longleftrightarrow> (\<exists>x \<in> set xs. f x = Some y)"
  by (induction xs) (auto simp: map_filter_simps split: option.splits)

lemma entity_of_match_Some:
  assumes "entity_of_match content file_path entity_type m = Some e"
  shows "e_name e \<notin> set [''self'', ''Self'', ''new'', ''default'', ''from'', ''into'']
         \<and> e_id e = e_name e \<and> e_name e = group m 1 \<and> e_type e = entity_type
         \<and> e_module e = file_path"
proof (cases "group m 1 \<in> set [''self'', ''Self'', ''new'', ''default'', ''from'', ''into'']")
  case True
  with assms show ?thesis unfolding entity_of_match_def Let_def by (simp only: if_True) simp
next
  case False
  with assms have "e = \<lparr>e_id = group m 1, e_name = group m 1, e_type = entity_type,
       e_module = file_path,
       e_visibility = (if str_in ''pub '' (slice content (m_start m - 10) (m_start m + 10))
                then ''pub'' else ''private'')\<rparr>"
    unfolding entity_of_match_def Let_def by (simp only: if_False option.inject)
  with False show ?thesis by (simp only: entity.simps simp_thms)
qed

lemma extract_entities_member:
  assumes "e \<in> set (extract_entities content file_path)"
  shows "\<exists>entity_type m. entity_of_match content file_path entity_type m = Some e"
  using assms unfolding extract_entities_def
  by (auto simp: in_set_map_filter)

lemma extract_entities_names:
  assumes "e \<in> set (extract_entities content file_path)"
  shows "e_name e \<notin> set [''self'', ''Self'', ''new'', ''default'', ''from'', ''into'']"
    and "e_id e = e_name e" and "e_module e = file_path"
  using extract_entities_member[OF assms] entity_of_match_Some by blast+

lemma item_of_match_Some:
  assumes "item_of_match content file_path item_type m = Some item"
  shows "i_name item \<notin> set [''self'', ''Self'', ''crate'', ''super'']"
proof (cases "group m 2 \<in> set [''self'', ''Self'', ''crate'', ''super'']")
  case True
  with assms show ?thesis unfolding item_of_match_def Let_def by (simp only: if_True) simp
next
  case False
  with assms have h: "i_name item = group m 2"
    unfolding item_of_match_def Let_def by (auto simp only: if_False option.inject api_item.simps)
  from False show ?thesis unfolding h .
qed

lemma attach_doc_name:
  "i_name (case d of None \<Rightarrow> item | Some t \<Rightarrow> item\<lparr>i_doc := Some t\<rparr>) = i_name item"
  by (cases d) simp_all

lemma extract_pub_items_names:
  assumes "item \<in> set (extract_pub_items content file_path)"
  shows "i_name item \<notin> set [''self'', ''Self'', ''crate'', ''super'']"
proof -
  let ?items = "concat (map (\<lambda>(item_type, pattern).
                                 List.map_filter (item_of_match content file_path item_type)
                                   (re_finditer pattern content))
                            item_patterns)"
  let ?docs = "extract_docstrings content ?items"
  from assms have "item \<in> (\<lambda>it. case ?docs (item_key it) of None \<Rightarrow> it
                                  | Some d \<Rightarrow> it\<lparr>i_doc := Some d\<rparr>) ` set ?items"
    unfolding extract_pub_items_def Let_def by (simp only: set_map)
  then obtain it where it: "it \<in> set ?items"
    and eq: "item = (case ?docs (item_key it) of None \<Rightarrow> it | Some d \<Rightarrow> it\<lparr>i_doc := Some d\<rparr>)"
    by blast
  have nm: "i_name item = i_name it" unfolding eq by (rule attach_doc_name)
  from it obtain item_type m where "item_of_match content file_path item_type m = Some it"
    by (auto simp: in_set_map_filter)
  from item_of_match_Some[OF this] show ?thesis unfolding nm .
qed

lemma scanned_entities_alt:
  "scanned_entities p = concat (map (file_entities_of p) (rs_files p))"
  by (simp add: scanned_entities_def)

lemma find_snoc:
  "find P (xs @ [y]) = (case find P xs of Some a \<Rightarrow> Some a | None \<Rightarrow> if P y then Some y else None)"
  by (induction xs) simp_all

lemma find_name_key: "find (\<lambda>e. e_name e = x) xs = Some a \<Longrightarrow> e_name a = x \<and> a \<in> set xs"
  by (induction xs) (auto split: if_splits)

lemma kg_inv_step:
  assumes "kg_inv em ns seen"
  shows "kg_inv (fst (add_entities [e] (em, ns))) (snd (add_entities [e] (em, ns))) (seen @ [e])"
proof (cases "em (e_name e)")
  case None
  from assms have em: "em = (\<lambda>x. find (\<lambda>e. e_name e = x) seen)" and d: "distinct (map e_name ns)"
    and r: "set ns = ran em" and s: "subseq ns seen" by (auto simp: kg_inv_def)
  have a: "add_entities [e] (em, ns) = (em(e_name e \<mapsto> e), ns @ [e])"
    using None by simp
  have 1: "em(e_name e \<mapsto> e) = (\<lambda>x. find (\<lambda>e. e_name e = x) (seen @ [e]))"
  proof (rule ext)
    fix x
    show "(em(e_name e \<mapsto> e)) x = find (\<lambda>e. e_name e = x) (seen @ [e])"
      using None by (auto simp: em find_snoc split: option.splits)
  qed
  have nin: "e_name e \<notin> e_name ` set ns"
  proof
    assume "e_name e \<in> e_name ` set ns"
    then obtain n where n: "n \<in> set ns" "e_name n = e_name e" by auto
    with r obtain x where x: "em x = Some n" by (auto simp: ran_def)
    with em have "e_name n = x" using find_name_key by fastforce
    with x n None show False by simp
  qed
  have 2: "distinct (map e_name (ns @ [e]))" using d nin by simp
  have 3: "set (ns @ [e]) = ran (em(e_name e \<mapsto> e))" using None r by simp
  have 4: "subseq (ns @ [e]) (seen @ [e])" using s by (simp add: list_emb_append_mono)
  from 1 2 3 4 show ?thesis unfolding a kg_inv_def by simp
next
  case (Some n)
  from assms have em: "em = (\<lambda>x. find (\<lambda>e. e_name e = x) seen)" and d: "distinct (map e_name ns)"
    and r: "set ns = ran em" and s: "subseq ns seen" by (auto simp: kg_inv_def)
  have a: "add_entities [e] (em, ns) = (em, ns)" using Some by simp
  have 1: "em = (\<lambda>x. find (\<lambda>e. e_name e = x) (seen @ [e]))"
  proof (rule ext)
    fix x
    show "em x = find (\<lambda>e. e_name e = x) (seen @ [e])"
      using Some by (auto simp: em find_snoc split: option.splits)
  qed
  have 4: "subseq ns (seen @ [e])" using list_emb_append_mono[OF s, of "[]" "[e]"] by simp
  from 1 d r 4 show ?thesis unfolding a kg_inv_def by simp
qed

lemma add_entities_Cons:
  "add_entities (e # es) acc = add_entities es (add_entities [e] acc)"
  by (cases acc) (simp add: Let_def)

lemma kg_inv_add_entities:
  assumes "kg_inv em ns seen"
  shows "kg_inv (fst (add_entities es (em, ns))) (snd (add_entities es (em, ns))) (seen @ es)"
  using assms
proof (induction es arbitrary: em ns seen)
  case Nil
  then show ?case by simp
next
  case (Cons e es)
  let ?st = "add_entities [e] (em, ns)"
  have "kg_inv (fst ?st) (snd ?st) (seen @ [e])" using Cons.prems by (rule kg_inv_step)
  from Cons.IH[OF this] show ?case
    by (simp only: add_entities_Cons[of e es] prod.collapse append_assoc append_Cons append_Nil)
qed

lemma kg_inv_process_file:
  assumes "kg_inv (kg_entity_map st) (kg_nodes st) seen"
  shows "kg_inv (kg_entity_map (process_file p f st)) (kg_nodes (process_file p f st))
           (seen @ file_entities_of p f)"
proof (cases "''target'' \<in> set (root_parts p @ rel_parts f)")
  case True
  then show ?thesis using assms by (simp add: process_file_def file_entities_of_def)
next
  case False
  show ?thesis
  proof (cases "file_text f")
    case None
    with False show ?thesis using assms by (simp add: process_file_def file_entities_of_def)
  next
    case (Some content)
    let ?es = "extract_entities content (rel_path f)"
    have "kg_inv (fst (add_entities ?es (kg_entity_map st, kg_nodes st)))
            (snd (add_entities ?es (kg_entity_map st, kg_nodes st))) (seen @ ?es)"
      using assms by (rule kg_inv_add_entities)
    with False Some show ?thesis
      by (auto simp: process_file_def file_entities_of_def Let_def split: prod.splits)
  qed
qed

lemma kg_inv_process_files:
  assumes "kg_inv (kg_entity_map st) (kg_nodes st) seen"
  shows "kg_inv (kg_entity_map (process_files p fs st)) (kg_nodes (process_files p fs st))
           (seen @ concat (map (file_entities_of p) fs))"
  using assms
proof (induction fs arbitrary: st seen)
  case Nil
  then show ?case by simp
next
  case (Cons f fs)
  from Cons.IH[OF kg_inv_process_file[OF Cons.prems, of p f]] show ?case by simp
qed

lemma nodes_inv:
  "\<exists>em. kg_inv em (nodes (build_knowledge_graph p)) (scanned_entities p)"
proof -
  have "kg_inv Map.empty [] []" by (simp add: kg_inv_def)
  then have "kg_inv (kg_entity_map \<lparr>kg_entity_map = Map.empty, kg_nodes = [], kg_edges = []\<rparr>)
      (kg_nodes \<lparr>kg_entity_map = Map.empty, kg_nodes = [], kg_edges = []\<rparr>) []" by simp
  from kg_inv_process_files[OF this, of p "rs_files p"]
  show ?thesis by (auto simp: build_knowledge_graph_def Let_def scanned_entities_alt)
qed

lemma scanned_entities_id:
  assumes "e \<in> set (scanned_entities p)"
  shows "e_id e = e_name e"
proof -
  from assms obtain f where "e \<in> set (file_entities_of p f)"
    unfolding scanned_entities_alt by auto
  then obtain content where "e \<in> set (extract_entities content (rel_path f))"
    by (auto simp: file_entities_of_def split: if_splits option.splits)
  then show ?thesis by (rule extract_entities_names)
qed

lemma find_distinct_key:
  "distinct (map f xs) \<Longrightarrow> a \<in> set xs \<Longrightarrow> find (\<lambda>n. f n = f a) xs = Some a"
  by (induction xs) (auto simp: image_iff)

text \<open>
  Claim C4, amended. For every file text, \<open>_extract_entities\<close> produces no entity named
  \<open>self\<close>, \<open>Self\<close>, \<open>new\<close>, \<open>default\<close>, \<open>from\<close> or \<open>into\<close>, and \<open>_extract_pub_items\<close>
  produces no item named \<open>self\<close>, \<open>Self\<close>, \<open>crate\<close> or \<open>super\<close>; so a declaration named
  \<open>self\<close> or \<open>Self\<close> is excluded by both, whatever its visibility.
\<close>

theorem extractors_skip_listed_names:
  "(e \<in> set (extract_entities content file_path)
      \<longrightarrow> e_name e \<notin> set [''self'', ''Self'', ''new'', ''default'', ''from'', ''into''])
   \<and> (item \<in> set (extract_pub_items content file_path)
      \<longrightarrow> i_name item \<notin> set [''self'', ''Self'', ''crate'', ''super''])"
  using extract_entities_names(1) extract_pub_items_names by blast

theorem extractors_skip_listed_names_witness:
  "extract_entities ''pub struct Self; pub fn new() {} pub struct Foo;'' ''src/lib.rs''
     = [\<lparr>e_id = ''Foo'', e_name = ''Foo'', e_type = ''struct'', e_module = ''src/lib.rs'',
         e_visibility = ''pub''\<rparr>]
   \<and> ''Foo'' \<notin> set [''self'', ''Self'', ''new'', ''default'', ''from'', ''into'']
   \<and> map i_name (extract_pub_items ''pub struct Self; pub fn new() {} pub struct Foo;'' ''src/lib.rs'')
     = [''Foo'', ''new'']
   \<and> ''new'' \<notin> set [''self'', ''Self'', ''crate'', ''super'']"
proof -
  let ?c = "''pub struct Self; pub fn new() {} pub struct Foo;''"
  let ?e = "\<lparr>e_id = ''Foo'', e_name = ''Foo'', e_type = ''struct'', e_module = ''src/lib.rs'',
         e_visibility = ''pub''\<rparr>"
  let ?i = "\<lparr>i_name = ''new'', i_type = ''fn'', i_visibility = ''pub'', i_visibility_raw = ''pub'',
         i_file = ''src/lib.rs'', i_line = 1, i_doc = None\<rparr>"
  have h1: "extract_entities ?c ''src/lib.rs'' = [?e]" by code_simp
  have h2: "extract_pub_items ?c ''src/lib.rs'' =
      [\<lparr>i_name = ''Foo'', i_type = ''struct'', i_visibility = ''pub'', i_visibility_raw = ''pub'',
         i_file = ''src/lib.rs'', i_line = 1, i_doc = None\<rparr>, ?i]" by code_simp
  note T = extractors_skip_listed_names[where content = ?c and file_path = "''src/lib.rs''"
      and e = ?e and item = ?i]
  from T h1 have c1: "e_name ?e \<notin> set [''self'', ''Self'', ''new'', ''default'', ''from'', ''into'']"
    by (simp only: list.set_intros simp_thms)
  from T h2 have c2: "i_name ?i \<notin> set [''self'', ''Self'', ''crate'', ''super'']"
    by (simp only: list.set_intros simp_thms)
  from h1 h2 c1 c2 show ?thesis by simp
qed

text \<open>
  Claim C4, as stated, fails: \<open>as_ref\<close> and \<open>as_mut\<close> are in neither list, and \<open>new\<close> is
  not in the list of \<open>_extract_pub_items\<close>.
\<close>

theorem extractors_keep_as_ref_counterexample:
  "extract_entities ''fn as_ref(&self) {}'' ''src/lib.rs'' =
     [\<lparr>e_id = ''as_ref'', e_name = ''as_ref'', e_type = ''fn'', e_module = ''src/lib.rs'',
        e_visibility = ''private''\<rparr>]
   \<and> map i_name (extract_pub_items ''pub fn as_mut() {} pub fn new() {}'' ''src/lib.rs'')
       = [''as_mut'', ''new'']"
  by code_simp

text \<open>
  Claim C10. The nodes of \<open>build_knowledge_graph\<close> have pairwise different ids; they are
  scanned entities, kept in scan order; and the node found under the name of any scanned
  entity is the first scanned entity of that name, whole, with its kind, module and
  visibility. Every later entity of the name is therefore absent.
\<close>

theorem one_node_per_name:
  "distinct (map e_id (nodes (build_knowledge_graph p)))
   \<and> subseq (nodes (build_knowledge_graph p)) (scanned_entities p)
   \<and> (e \<in> set (scanned_entities p) \<longrightarrow>
        find (\<lambda>n. e_id n = e_name e) (nodes (build_knowledge_graph p))
          = find (\<lambda>e'. e_name e' = e_name e) (scanned_entities p))"
proof -
  let ?ns = "nodes (build_knowledge_graph p)" and ?all = "scanned_entities p"
  obtain em where inv: "kg_inv em ?ns ?all" using nodes_inv by blast
  then have em: "em = (\<lambda>x. find (\<lambda>e. e_name e = x) ?all)" and d: "distinct (map e_name ?ns)"
    and r: "set ?ns = ran em" and s: "subseq ?ns ?all" by (auto simp: kg_inv_def)
  have sub: "n \<in> set ?all" if "n \<in> set ?ns" for n
  proof -
    from that r obtain x where "em x = Some n" by (auto simp: ran_def)
    then show ?thesis unfolding em using find_name_key by fastforce
  qed
  have ids: "e_id n = e_name n" if "n \<in> set ?ns" for n
    using sub[OF that] by (rule scanned_entities_id)
  have "map e_id ?ns = map e_name ?ns" by (rule map_cong) (simp_all add: ids)
  with d have 1: "distinct (map e_id ?ns)" by (simp only:)
  have 3: "find (\<lambda>n. e_id n = e_name e) ?ns = find (\<lambda>e'. e_name e' = e_name e) ?all"
    if "e \<in> set ?all"
  proof -
    from that obtain a where a: "find (\<lambda>e'. e_name e' = e_name e) ?all = Some a"
      by (cases "find (\<lambda>e'. e_name e' = e_name e) ?all") (auto simp: find_None_iff)
    then have na: "e_name a = e_name e" using find_name_key by fastforce
    from a have "em (e_name e) = Some a" by (simp add: em)
    with r have "a \<in> set ?ns" by (auto simp: ran_def)
    with d have "find (\<lambda>n. e_name n = e_name a) ?ns = Some a" by (rule find_distinct_key)
    moreover have "find (\<lambda>n. e_id n = e_name e) ?ns = find (\<lambda>n. e_name n = e_name a) ?ns"
      by (rule find_cong) (simp_all add: ids na)
    ultimately show ?thesis using a by simp
  qed
  from 1 s 3 show ?thesis by blast
qed

theorem one_node_per_name_witness:
  "scanned_entities same_name_project =
     [\<lparr>e_id = ''Foo'', e_name = ''Foo'', e_type = ''struct'', e_module = ''src/a.rs'',
        e_visibility = ''pub''\<rparr>,
      \<lparr>e_id = ''Foo'', e_name = ''Foo'', e_type = ''fn'', e_module = ''src/a.rs'',
        e_visibility = ''private''\<rparr>,
      \<lparr>e_id = ''Foo'', e_name = ''Foo'', e_type = ''enum'', e_module = ''src/b.rs'',
        e_visibility = ''private''\<rparr>]
   \<and> nodes (build_knowledge_graph same_name_project) =
     [\<lparr>e_id = ''Foo'', e_name = ''Foo'', e_type = ''struct'', e_module = ''src/a.rs'',
        e_visibility = ''pub''\<rparr>]
   \<and> find (\<lambda>n. e_id n = ''Foo'') (nodes (build_knowledge_graph same_name_project))
       = find (\<lambda>e'. e_name e' = ''Foo'') (scanned_entities same_name_project)"
proof -
  let ?s = "\<lparr>e_id = ''Foo'', e_name = ''Foo'', e_type = ''struct'', e_module = ''src/a.rs'',
        e_visibility = ''pub''\<rparr>"
  let ?e = "\<lparr>e_id = ''Foo'', e_name = ''Foo'', e_type = ''enum'', e_module = ''src/b.rs'',
        e_visibility = ''private''\<rparr>"
  have h1: "scanned_entities same_name_project =
     [?s, \<lparr>e_id = ''Foo'', e_name = ''Foo'', e_type = ''fn'', e_module = ''src/a.rs'',
        e_visibility = ''private''\<rparr>, ?e]"
    by code_simp
  have h2: "nodes (build_knowledge_graph same_name_project) = [?s]" by code_simp
  have m: "?e \<in> set (scanned_entities same_name_project)" unfolding h1 by simp
  from one_node_per_name[where p = same_name_project and e = ?e] m
  have "find (\<lambda>n. e_id n = e_name ?e) (nodes (build_knowledge_graph same_name_project))
       = find (\<lambda>e'. e_name e' = e_name ?e) (scanned_entities same_name_project)" by blast
  then have c: "find (\<lambda>n. e_id n = ''Foo'') (nodes (build_knowledge_graph same_name_project))
       = find (\<lambda>e'. e_name e' = ''Foo'') (scanned_entities same_name_project)" by simp
  from h1 h2 c show ?thesis by blast
qed

lemma process_files_all_skipped:
  assumes "list_all (\<lambda>f. ''target'' \<in> set (root_parts p @ rel_parts f)) fs"
  shows "process_files p fs st = st"
  using assms by (induction fs arbitrary: st) (simp_all add: process_file_def)

lemma identify_clusters_empty: "identify_clusters [] es = []"
  by (simp add: identify_clusters_def)

text \<open>
  Claim C7. When \<open>rglob\<close> finds no \<open>.rs\<close> file outside a \<open>target\<close> directory, in
  particular when it finds none at all, \<open>build_knowledge_graph\<close> returns empty lists of
  nodes, edges and clusters with all statistics 0, and \<open>build_semantic_index\<close> on that
  graph returns empty maps and lists with all statistics 0.
\<close>

theorem no_source_files_all_empty:
  assumes "list_all (\<lambda>f. ''target'' \<in> set (root_parts p @ rel_parts f)) (rs_files p)"
  shows "build_knowledge_graph p =
           \<lparr>g_project = project_name p, nodes = [], edges = [], clusters = [],
            stats = \<lparr>total_nodes = 0, total_edges = 0, total_clusters = 0\<rparr>\<rparr>
         \<and> si_stats (build_semantic_index p (build_knowledge_graph p)) =
           \<lparr>total_files = 0, total_concepts = 0, total_public_apis = 0\<rparr>
         \<and> file_to_concepts (build_semantic_index p (build_knowledge_graph p)) = []
         \<and> concept_to_files (build_semantic_index p (build_knowledge_graph p)) = []
         \<and> hot_spots (build_semantic_index p (build_knowledge_graph p)) = []
         \<and> public_apis (build_semantic_index p (build_knowledge_graph p)) = []"
proof -
  have g: "build_knowledge_graph p =
           \<lparr>g_project = project_name p, nodes = [], edges = [], clusters = [],
            stats = \<lparr>total_nodes = 0, total_edges = 0, total_clusters = 0\<rparr>\<rparr>"
    by (simp add: build_knowledge_graph_def Let_def process_files_all_skipped[OF assms]
          identify_clusters_empty)
  show ?thesis unfolding g
    by (simp add: build_semantic_index_def Let_def)
qed

theorem no_source_files_all_empty_witness:
  "list_all (\<lambda>f. ''target'' \<in> set (root_parts empty_project @ rel_parts f)) (rs_files empty_project)
   \<and> build_knowledge_graph empty_project =
           \<lparr>g_project = ''empty'', nodes = [], edges = [], clusters = [],
            stats = \<lparr>total_nodes = 0, total_edges = 0, total_clusters = 0\<rparr>\<rparr>
   \<and> si_stats (build_semantic_index empty_project (build_knowledge_graph empty_project)) =
           \<lparr>total_files = 0, total_concepts = 0, total_public_apis = 0\<rparr>
   \<and> list_all (\<lambda>f. ''target'' \<in> set (root_parts target_only_project @ rel_parts f))
        (rs_files target_only_project)
   \<and> nodes (build_knowledge_graph target_only_project) = []"
proof -
  have h1: "list_all (\<lambda>f. ''target'' \<in> set (root_parts empty_project @ rel_parts f))
      (rs_files empty_project)"
    by (simp add: empty_project_def)
  have h2: "list_all (\<lambda>f. ''target'' \<in> set (root_parts target_only_project @ rel_parts f))
        (rs_files target_only_project)"
    by (simp add: target_only_project_def)
  have n: "project_name empty_project = ''empty''" by (simp add: project_name_def empty_project_def)
  from no_source_files_all_empty[OF h1]
  have a: "build_knowledge_graph empty_project =
           \<lparr>g_project = project_name empty_project, nodes = [], edges = [], clusters = [],
            stats = \<lparr>total_nodes = 0, total_edges = 0, total_clusters = 0\<rparr>\<rparr>"
    and b: "si_stats (build_semantic_index empty_project (build_knowledge_graph empty_project)) =
           \<lparr>total_files = 0, total_concepts = 0, total_public_apis = 0\<rparr>"
    by blast+
  from no_source_files_all_empty[OF h2]
  have "build_knowledge_graph target_only_project =
           \<lparr>g_project = project_name target_only_project, nodes = [], edges = [], clusters = [],
            stats = \<lparr>total_nodes = 0, total_edges = 0, total_clusters = 0\<rparr>\<rparr>"
    by blast
  then have c: "nodes (build_knowledge_graph target_only_project) = []" by simp
  from a have a': "build_knowledge_graph empty_project =
           \<lparr>g_project = ''empty'', nodes = [], edges = [], clusters = [],
            stats = \<lparr>total_nodes = 0, total_edges = 0, total_clusters = 0\<rparr>\<rparr>"
    unfolding n .
  from h1 a' b h2 c show ?thesis by blast
qed

end
